theory Spec2Isabelle
  imports Main "HOL-Library.Sublist"
begin

section \<open>Python values\<close>

text \<open>
  The values that \<^verbatim>\<open>json.loads\<close> produces: \<^verbatim>\<open>None\<close>, booleans, integers, strings, lists
  and dicts. A dict is an association list in insertion order. Numbers with a fraction
  or an exponent (Python floats) are not part of the model. A string is a list of
  8-bit characters, each standing for one code point.
\<close>

datatype json =
    JNull
  | JBool bool
  | JInt int
  | JStr string
  | JArr "json list"
  | JObj "(string \<times> json) list"

text \<open>The exceptions the program can meet; all of them derive from \<^verbatim>\<open>Exception\<close>.\<close>

datatype py_exn =
    JSONDecodeError
  | AttributeError
  | TypeError
  | IndexError
  | OtherError

text \<open>
  Python's \<^verbatim>\<open>==\<close> on these values: \<^verbatim>\<open>True == 1\<close> and \<^verbatim>\<open>False == 0\<close> hold, lists are
  compared element by element, dicts by their key sets and the values under each key,
  and values of different kinds are otherwise unequal.
\<close>

fun py_eq :: "json \<Rightarrow> json \<Rightarrow> bool"
and py_eq_list :: "json list \<Rightarrow> json list \<Rightarrow> bool"
and py_eq_items :: "(string \<times> json) list \<Rightarrow> (string \<times> json) list \<Rightarrow> bool" where
  "py_eq JNull b = (b = JNull)"
| "py_eq (JBool x) b =
     (case b of JBool y \<Rightarrow> x = y | JInt n \<Rightarrow> n = (if x then 1 else 0) | _ \<Rightarrow> False)"
| "py_eq (JInt m) b =
     (case b of JBool y \<Rightarrow> m = (if y then 1 else 0) | JInt n \<Rightarrow> m = n | _ \<Rightarrow> False)"
| "py_eq (JStr s) b = (b = JStr s)"
| "py_eq (JArr xs) b = (case b of JArr ys \<Rightarrow> py_eq_list xs ys | _ \<Rightarrow> False)"
| "py_eq (JObj d) b =
     (case b of JObj e \<Rightarrow> length d = length e \<and> py_eq_items d e | _ \<Rightarrow> False)"
| "py_eq_list [] ys = (ys = [])"
| "py_eq_list (x # xs) ys =
     (case ys of [] \<Rightarrow> False | y # ys' \<Rightarrow> py_eq x y \<and> py_eq_list xs ys')"
| "py_eq_items [] e = True"
| "py_eq_items ((k, v) # d) e =
     ((case map_of e k of None \<Rightarrow> False | Some w \<Rightarrow> py_eq v w) \<and> py_eq_items d e)"

text \<open>Truthiness, as \<^verbatim>\<open>if x:\<close> and \<^verbatim>\<open>not x\<close> test it.\<close>

fun py_truthy :: "json \<Rightarrow> bool" where
  "py_truthy JNull = False"
| "py_truthy (JBool b) = b"
| "py_truthy (JInt n) = (n \<noteq> 0)"
| "py_truthy (JStr s) = (s \<noteq> [])"
| "py_truthy (JArr xs) = (xs \<noteq> [])"
| "py_truthy (JObj d) = (d \<noteq> [])"

text \<open>\<^verbatim>\<open>len(x)\<close>: defined on strings, lists and dicts, a \<^verbatim>\<open>TypeError\<close> elsewhere.\<close>

fun py_len :: "json \<Rightarrow> py_exn + nat" where
  "py_len (JStr s) = Inr (length s)"
| "py_len (JArr xs) = Inr (length xs)"
| "py_len (JObj d) = Inr (length d)"
| "py_len _ = Inl TypeError"

text \<open>
  Iteration, as \<^verbatim>\<open>enumerate(x, 1)\<close> performs it: a list yields its elements, a string its
  characters as one-character strings, a dict its keys; anything else is not iterable.
\<close>

fun py_iter :: "json \<Rightarrow> py_exn + json list" where
  "py_iter (JArr xs) = Inr xs"
| "py_iter (JStr s) = Inr (map (\<lambda>c. JStr [c]) s)"
| "py_iter (JObj d) = Inr (map (\<lambda>kv. JStr (fst kv)) d)"
| "py_iter _ = Inl TypeError"

text \<open>\<^verbatim>\<open>q.get(key, default)\<close>: only a dict has the method.\<close>

fun dict_get :: "json \<Rightarrow> string \<Rightarrow> json \<Rightarrow> py_exn + json" where
  "dict_get (JObj d) k dflt = Inr (case map_of d k of None \<Rightarrow> dflt | Some v \<Rightarrow> v)"
| "dict_get _ k dflt = Inl AttributeError"

section \<open>Python string operations\<close>

text \<open>
  \<^verbatim>\<open>str.isspace\<close> on the first 256 code points: the ASCII controls 9 to 13 and 28 to 31,
  the space, and the code points 133 and 160.
\<close>

definition py_isspace :: "char \<Rightarrow> bool" where
  "py_isspace c =
     ((of_char c :: nat) \<in> set [9, 10, 11, 12, 13, 28, 29, 30, 31, 32, 133, 160])"

text \<open>\<^verbatim>\<open>s.strip()\<close> removes the leading and the trailing whitespace.\<close>

definition py_strip :: "string \<Rightarrow> string" where
  "py_strip s = rev (dropWhile py_isspace (rev (dropWhile py_isspace s)))"

text \<open>
  \<^verbatim>\<open>s.find(sub)\<close>: the lowest index at which \<^verbatim>\<open>sub\<close> occurs in \<^verbatim>\<open>s\<close>; \<open>None\<close> stands for
  Python's \<open>-1\<close>.
\<close>

primrec find_sub :: "string \<Rightarrow> string \<Rightarrow> nat option" where
  "find_sub sub [] = (if sub = [] then Some 0 else None)"
| "find_sub sub (c # cs) =
     (if prefix sub (c # cs) then Some 0 else map_option Suc (find_sub sub cs))"

text \<open>\<^verbatim>\<open>s.find(sub, start)\<close> for a start index that is not negative.\<close>

definition py_find :: "string \<Rightarrow> string \<Rightarrow> nat \<Rightarrow> nat option" where
  "py_find s sub start =
     (if start \<le> length s then map_option (\<lambda>i. start + i) (find_sub sub (drop start s))
      else None)"

text \<open>\<^verbatim>\<open>sub in s\<close>.\<close>

definition py_in_str :: "string \<Rightarrow> string \<Rightarrow> bool" where
  "py_in_str sub s = (find_sub sub s \<noteq> None)"

text \<open>\<^verbatim>\<open>s[start:end]\<close> for indices that are not negative.\<close>

definition py_slice :: "string \<Rightarrow> nat \<Rightarrow> nat \<Rightarrow> string" where
  "py_slice s start end = take (end - start) (drop start s)"

section \<open>The response normalizer\<close>

text \<open>
  The argument of \<^verbatim>\<open>parse_ai_response\<close>: a text, or any object that is not a \<^verbatim>\<open>str\<close>
  (on which the first statement of the body raises).
\<close>

datatype response = Text string | NonText

definition fence_json :: string where
  "fence_json = ''```json''"

definition fence :: string where
  "fence = ''```''"

text \<open>
  Lines 115 to 127: the text that is handed to the parser. With a fence marker in the
  response, it is the slice from behind the first marker up to the next \<^verbatim>\<open>```\<close>, or up
  to the end of the response when there is none.
\<close>

definition fenced_slice :: "string \<Rightarrow> nat \<Rightarrow> string" where
  "fenced_slice response_text start =
     (let end = (case py_find response_text fence start of
                   None \<Rightarrow> length response_text
                 | Some e \<Rightarrow> e)
      in py_strip (py_slice response_text start end))"

definition extract_json_str :: "string \<Rightarrow> string" where
  "extract_json_str response_text =
     (if py_in_str fence_json response_text then
        fenced_slice response_text (the (py_find response_text fence_json 0) + 7)
      else if py_in_str fence response_text then
        fenced_slice response_text (the (py_find response_text fence 0) + 3)
      else py_strip response_text)"

text \<open>
  Lines 129 to 132: the strict parse, and the lenient one when the strict one raises
  \<^verbatim>\<open>JSONDecodeError\<close>. Both parsers are libraries outside the repository and are
  parameters here; each returns a value or raises.
\<close>

definition parse_or_repair ::
  "(string \<Rightarrow> py_exn + json) \<Rightarrow> (string \<Rightarrow> py_exn + json) \<Rightarrow> string \<Rightarrow> py_exn + json" where
  "parse_or_repair loads repair json_str =
     (case loads json_str of
        Inr parsed \<Rightarrow> Inr parsed
      | Inl JSONDecodeError \<Rightarrow> repair json_str
      | Inl e \<Rightarrow> Inl e)"

definition empty_quiz :: json where
  "empty_quiz = JObj [(''questions'', JArr [])]"

text \<open>Lines 134 to 139: the shape of the result.\<close>

fun normalize_shape :: "json \<Rightarrow> json" where
  "normalize_shape (JArr xs) = JObj [(''questions'', JArr xs)]"
| "normalize_shape (JObj d) =
     (if map_of d ''questions'' \<noteq> None then JObj d
      else JObj [(''questions'', JArr (if d \<noteq> [] then map snd d else []))])"
| "normalize_shape _ = empty_quiz"

text \<open>The body of the \<^verbatim>\<open>try\<close> block, with the exceptions it can raise.\<close>

definition parse_body ::
  "(string \<Rightarrow> py_exn + json) \<Rightarrow> (string \<Rightarrow> py_exn + json) \<Rightarrow> response \<Rightarrow> py_exn + json" where
  "parse_body loads repair r =
     (case r of
        NonText \<Rightarrow> Inl AttributeError
      | Text response_text \<Rightarrow>
          (case parse_or_repair loads repair (extract_json_str response_text) of
             Inl e \<Rightarrow> Inl e
           | Inr parsed \<Rightarrow> Inr (normalize_shape parsed)))"

text \<open>\<^verbatim>\<open>parse_ai_response\<close>: the body under \<^verbatim>\<open>except Exception\<close>.\<close>

definition parse_ai_response ::
  "(string \<Rightarrow> py_exn + json) \<Rightarrow> (string \<Rightarrow> py_exn + json) \<Rightarrow> response \<Rightarrow> json" where
  "parse_ai_response loads repair r =
     (case parse_body loads repair r of Inl e \<Rightarrow> empty_quiz | Inr v \<Rightarrow> v)"

section \<open>Text extraction\<close>

text \<open>
  What the PDF library gives for a document: opening it raises, or it has pages; the
  text extraction of a page raises, or gives \<^verbatim>\<open>None\<close> or a text.
\<close>

type_synonym page = "py_exn + string option"

type_synonym pdf_file = "py_exn + page list"

definition newline :: string where
  "newline = [CHR 0x0A]"

text \<open>The loop of lines 104 to 107, with the text accumulated so far.\<close>

fun extract_pages :: "page list \<Rightarrow> string \<Rightarrow> py_exn + string" where
  "extract_pages [] text = Inr text"
| "extract_pages (p # ps) text =
     (case p of
        Inl e \<Rightarrow> Inl e
      | Inr page_text \<Rightarrow>
          extract_pages ps
            (case page_text of
               None \<Rightarrow> text
             | Some t \<Rightarrow> if t \<noteq> [] then text @ t @ newline else text))"

text \<open>What the user interface shows, one constructor for each call that displays.\<close>

datatype ui =
    PdfError py_exn
  | QuizDataError
  | NoQuestions
  | Heading nat json
  | Prompt json
  | Radio string "json list" nat
  | Divider
  | SubmitButton string
  | Correct nat
  | Incorrect nat json
  | Explanation json
  | Score nat nat
  | Balloons
  | HistoryLine string string string
  | ClearButton
  | NoAttempts

text \<open>\<^verbatim>\<open>extract_text_from_pdf\<close>: the message displayed, if any, and the text returned.\<close>

definition extract_text_from_pdf :: "pdf_file \<Rightarrow> ui list \<times> string" where
  "extract_text_from_pdf pdf_file =
     (case pdf_file of
        Inl e \<Rightarrow> ([PdfError e], [])
      | Inr pages \<Rightarrow>
          (case extract_pages pages [] of
             Inl e \<Rightarrow> ([PdfError e], [])
           | Inr text \<Rightarrow> ([], take 8000 text)))"

section \<open>The quiz session\<close>

text \<open>An entry of the history, the dict of lines 245 to 250.\<close>

record attempt =
  att_type :: string
  att_topic :: string
  att_score :: string
  att_time :: string

text \<open>
  The part of \<^verbatim>\<open>st.session_state\<close> that one quiz instance reads and writes: the list
  under \<^verbatim>\<open>{key_prefix}_user_answers\<close> (\<open>None\<close> when the key is absent), whether
  \<^verbatim>\<open>{key_prefix}_submitted\<close> is set, and the history, which all instances share.
\<close>

record session =
  user_answers :: "json list option"
  submitted :: bool
  quiz_history :: "attempt list"

text \<open>The decimal digits of a number, as an f-string prints it.\<close>

fun show_nat :: "nat \<Rightarrow> string" where
  "show_nat n =
     (if n < 10 then [char_of (48 + n)]
      else show_nat (n div 10) @ [char_of (48 + n mod 10)])"

declare show_nat.simps [simp del]

text \<open>\<^verbatim>\<open>xs.index(x)\<close>; \<^verbatim>\<open>x in xs\<close> holds when there is such an index.\<close>

fun py_index :: "json list \<Rightarrow> json \<Rightarrow> nat option" where
  "py_index [] x = None"
| "py_index (y # ys) x = (if py_eq y x then Some 0 else map_option Suc (py_index ys x))"

text \<open>
  The radio widget of the page framework, which is outside the repository: it returns
  the option the user has selected under this widget key (\<open>pick\<close> gives its position),
  and the option at \<open>index\<close> as long as the user has selected none.
\<close>

definition st_radio :: "(string \<Rightarrow> nat option) \<Rightarrow> string \<Rightarrow> json list \<Rightarrow> nat \<Rightarrow> json" where
  "st_radio pick key options index =
     (case pick key of
        None \<Rightarrow> options ! index
      | Some j \<Rightarrow> if j < length options then options ! j else options ! index)"

text \<open>
  The outcome of a part of the page script: the exception that ended it, if any, what
  it had displayed and the state it had reached. \<open>NotModelled\<close> is no exception: it ends
  a run at a call whose behaviour is left open here.
\<close>

datatype stop = Raised py_exn | NotModelled

text \<open>The test of line 221, \<^verbatim>\<open>q.get("type") == "MCQ" and len(options) == 4\<close>.\<close>

definition is_mcq4 :: "json \<Rightarrow> json \<Rightarrow> py_exn + bool" where
  "is_mcq4 qtype options =
     (if py_eq qtype (JStr ''MCQ'') then
        (case py_len options of Inl e \<Rightarrow> Inl e | Inr n \<Rightarrow> Inr (n = 4))
      else Inr False)"

text \<open>
  Lines 215 to 232, the body of the rendering loop for question number \<open>i\<close> (counted
  from 1). An \<^verbatim>\<open>options\<close> value of length 4 that is a string or a dict is handed to the
  widget as it is; that case is left open.
\<close>

fun render_question ::
  "(string \<Rightarrow> nat option) \<Rightarrow> string \<Rightarrow> nat \<Rightarrow> json \<Rightarrow> json list
     \<Rightarrow> stop option \<times> ui list \<times> json list" where
  "render_question pick key_prefix i (JObj d) answers =
     (let difficulty = (case map_of d ''difficulty'' of None \<Rightarrow> JStr ''N/A'' | Some v \<Rightarrow> v);
          question = (case map_of d ''question'' of None \<Rightarrow> JStr ''N/A'' | Some v \<Rightarrow> v);
          head = [Heading i difficulty, Prompt question];
          unique_key = key_prefix @ ''_q'' @ show_nat i;
          options = (case map_of d ''options'' of None \<Rightarrow> JArr [] | Some v \<Rightarrow> v);
          qtype = (case map_of d ''type'' of None \<Rightarrow> JNull | Some v \<Rightarrow> v)
      in case is_mcq4 qtype options of
           Inl e \<Rightarrow> (Some (Raised e), head, answers)
         | Inr True \<Rightarrow>
             (if i - 1 < length answers then
                (case options of
                   JArr opts \<Rightarrow>
                     (let index = (case py_index opts (answers ! (i - 1)) of
                                     None \<Rightarrow> 0 | Some k \<Rightarrow> k);
                          selected = st_radio pick unique_key opts index
                      in (None, head @ [Radio unique_key opts index, Divider],
                          answers[i - 1 := selected]))
                 | _ \<Rightarrow> (Some NotModelled, head, answers))
              else (Some (Raised IndexError), head, answers))
         | Inr False \<Rightarrow>
             (if py_eq qtype (JStr ''True/False'') then
                (if i - 1 < length answers then
                   (let stored = answers ! (i - 1);
                        current = (if py_index [JStr ''True'', JStr ''False''] stored \<noteq> None
                                   then stored else JStr ''True'');
                        index = (if py_eq current (JStr ''True'') then 0 else 1);
                        selected = st_radio pick unique_key [JStr ''True'', JStr ''False''] index
                    in (None,
                        head @ [Radio unique_key [JStr ''True'', JStr ''False''] index, Divider],
                        answers[i - 1 := selected]))
                 else (Some (Raised IndexError), head, answers))
              else (None, head @ [Divider], answers)))"
| "render_question pick key_prefix i q answers = (Some (Raised AttributeError), [], answers)"

text \<open>The loop of line 214 over the questions from number \<open>i\<close> on.\<close>

fun render_loop ::
  "(string \<Rightarrow> nat option) \<Rightarrow> string \<Rightarrow> nat \<Rightarrow> json list \<Rightarrow> json list
     \<Rightarrow> stop option \<times> ui list \<times> json list" where
  "render_loop pick key_prefix i [] answers = (None, [], answers)"
| "render_loop pick key_prefix i (q # qs) answers =
     (case render_question pick key_prefix i q answers of
        (Some e, out, answers') \<Rightarrow> (Some e, out, answers')
      | (None, out, answers') \<Rightarrow>
          (case render_loop pick key_prefix (i + 1) qs answers' of
             (r, out', answers'') \<Rightarrow> (r, out @ out', answers'')))"

text \<open>The scoring loop of lines 237 to 243, with the count so far.\<close>

fun tally :: "nat \<Rightarrow> json list \<Rightarrow> json list \<Rightarrow> nat \<Rightarrow> py_exn + nat" where
  "tally i [] answers correct_count = Inr correct_count"
| "tally i (q # qs) answers correct_count =
     (if i - 1 < length answers then
        (case dict_get q ''answer'' (JStr []) of
           Inl e \<Rightarrow> Inl e
         | Inr correct_ans \<Rightarrow>
             tally (i + 1) qs answers
               (if py_eq (answers ! (i - 1)) correct_ans then correct_count + 1
                else correct_count))
      else Inl IndexError)"

text \<open>The feedback loop of lines 253 to 264, with the count so far.\<close>

fun feedback ::
  "nat \<Rightarrow> json list \<Rightarrow> json list \<Rightarrow> nat \<Rightarrow> py_exn option \<times> ui list \<times> nat" where
  "feedback i [] answers correct_count = (None, [], correct_count)"
| "feedback i (q # qs) answers correct_count =
     (if i - 1 < length answers then
        (case dict_get q ''answer'' (JStr []) of
           Inl e \<Rightarrow> (Some e, [], correct_count)
         | Inr correct_ans \<Rightarrow>
             (let is_correct = py_eq (answers ! (i - 1)) correct_ans;
                  verdict = (if is_correct then Correct i else Incorrect i correct_ans);
                  correct_count' = (if is_correct then correct_count + 1 else correct_count)
              in case dict_get q ''explanation'' (JStr ''N/A'') of
                   Inl e \<Rightarrow> (Some e, [verdict], correct_count')
                 | Inr expl \<Rightarrow>
                     (case feedback (i + 1) qs answers correct_count' of
                        (r, out, c) \<Rightarrow> (r, [verdict, Explanation expl, Divider] @ out, c))))
      else (Some IndexError, [], correct_count))"

text \<open>
  Lines 234 to 250, the submit button when it is pressed: the flag is set first, the
  answers are scored, and the attempt is appended to the history. \<open>now\<close> is the time of
  day that the clock gives, formatted as hours and minutes.
\<close>

definition submit_answers ::
  "string \<Rightarrow> string \<Rightarrow> string \<Rightarrow> json list \<Rightarrow> json list \<Rightarrow> session
     \<Rightarrow> py_exn option \<times> session" where
  "submit_answers now topic quiz_type questions answers st =
     (let st1 = st\<lparr>submitted := True\<rparr>
      in case tally 1 questions answers 0 of
           Inl e \<Rightarrow> (Some e, st1)
         | Inr correct_count \<Rightarrow>
             (let score_str = show_nat correct_count @ ''/'' @ show_nat (length questions)
              in (None,
                  st1\<lparr>quiz_history := quiz_history st1 @
                    [\<lparr>att_type = quiz_type, att_topic = topic,
                      att_score = score_str, att_time = now\<rparr>]\<rparr>)))"

text \<open>Lines 252 to 268, what is displayed once the submitted flag is set.\<close>

definition show_results :: "json list \<Rightarrow> json list \<Rightarrow> py_exn option \<times> ui list" where
  "show_results questions answers =
     (case feedback 1 questions answers 0 of
        (Some e, out, correct_count) \<Rightarrow> (Some e, out)
      | (None, out, correct_count) \<Rightarrow>
          (None,
           out @ [Score correct_count (length questions)] @
             (if correct_count = length questions then [Balloons] else [])))"

text \<open>Lines 210 to 212: the answer list, created with one unset entry for each question.\<close>

definition ensure_answers :: "json \<Rightarrow> session \<Rightarrow> py_exn + json list \<times> session" where
  "ensure_answers questions st =
     (case user_answers st of
        Some answers \<Rightarrow> Inr (answers, st)
      | None \<Rightarrow>
          (case py_len questions of
             Inl e \<Rightarrow> Inl e
           | Inr n \<Rightarrow> Inr (replicate n JNull, st\<lparr>user_answers := Some (replicate n JNull)\<rparr>)))"

text \<open>Lines 234 to 268, after the rendering loop has ended without an exception.\<close>

definition after_render ::
  "bool \<Rightarrow> string \<Rightarrow> string \<Rightarrow> string \<Rightarrow> string \<Rightarrow> json list \<Rightarrow> json list \<Rightarrow> ui list
     \<Rightarrow> session \<Rightarrow> stop option \<times> ui list \<times> session" where
  "after_render submit_pressed now key_prefix topic quiz_type questions answers out st =
     (let out1 = out @ [SubmitButton (key_prefix @ ''_submit'')]
      in case (if submit_pressed then submit_answers now topic quiz_type questions answers st
               else (None, st)) of
           (Some e, st') \<Rightarrow> (Some (Raised e), out1, st')
         | (None, st') \<Rightarrow>
             (if submitted st' then
                (case show_results questions answers of
                   (r, out2) \<Rightarrow> (map_option Raised r, out1 @ out2, st'))
              else (None, out1, st')))"

text \<open>
  \<^verbatim>\<open>display_interactive_quiz\<close>, one run of it. \<open>pick\<close> holds the selections of the user in
  the radio widgets, \<open>submit_pressed\<close> tells whether this run was caused by the submit
  button. The answer list is one object: what the loop has stored in it stays stored
  when a later statement raises.
\<close>

definition display_interactive_quiz ::
  "(string \<Rightarrow> nat option) \<Rightarrow> bool \<Rightarrow> string \<Rightarrow> json \<Rightarrow> string \<Rightarrow> string \<Rightarrow> string
     \<Rightarrow> session \<Rightarrow> stop option \<times> ui list \<times> session" where
  "display_interactive_quiz pick submit_pressed now quiz_data key_prefix topic quiz_type st =
     (case quiz_data of
        JObj d \<Rightarrow>
          (let questions = (case map_of d ''questions'' of None \<Rightarrow> JArr [] | Some v \<Rightarrow> v)
           in if \<not> py_truthy questions then (None, [NoQuestions], st)
              else
                (case ensure_answers questions st of
                   Inl e \<Rightarrow> (Some (Raised e), [], st)
                 | Inr (answers, st1) \<Rightarrow>
                     (case py_iter questions of
                        Inl e \<Rightarrow> (Some (Raised e), [], st1)
                      | Inr qs \<Rightarrow>
                          (case render_loop pick key_prefix 1 qs answers of
                             (Some e, out, answers') \<Rightarrow>
                               (Some e, out, st1\<lparr>user_answers := Some answers'\<rparr>)
                           | (None, out, answers') \<Rightarrow>
                               after_render submit_pressed now key_prefix topic quiz_type
                                 qs answers' out (st1\<lparr>user_answers := Some answers'\<rparr>)))))
      | _ \<Rightarrow> (None, [QuizDataError], st))"

section \<open>The history in the sidebar\<close>

text \<open>\<^verbatim>\<open>xs[-n:]\<close> for a positive \<open>n\<close>: the last \<open>n\<close> entries, all of them when there are fewer.\<close>

definition py_last_n :: "nat \<Rightarrow> 'a list \<Rightarrow> 'a list" where
  "py_last_n n xs = drop (length xs - n) xs"

definition history_line :: "attempt \<Rightarrow> ui" where
  "history_line entry = HistoryLine (att_score entry) (att_type entry) (take 30 (att_topic entry))"

text \<open>
  Lines 276 to 283: what the sidebar lists, the state it leaves, and whether it asks
  for a rerun of the script. \<open>clear_pressed\<close> tells whether this run was caused by the
  clear button.
\<close>

definition sidebar :: "bool \<Rightarrow> session \<Rightarrow> ui list \<times> session \<times> bool" where
  "sidebar clear_pressed st =
     (if quiz_history st \<noteq> [] then
        (let lines = map history_line (rev (py_last_n 5 (quiz_history st)))
         in if clear_pressed then (lines @ [ClearButton], st\<lparr>quiz_history := []\<rparr>, True)
            else (lines @ [ClearButton], st, False))
      else ([NoAttempts], st, False))"

section \<open>A strict parser for closed examples\<close>

text \<open>
  \<^verbatim>\<open>json.loads\<close> on the texts that consist of whitespace, brackets, braces, commas,
  colons, the three literals, integers and strings without a backslash. A text that
  needs more of JSON (an escape in a string, a fraction or an exponent) is rejected
  here although the library accepts it; for that reason this parser serves the closed
  examples only, and every general statement takes the parser as a parameter.
\<close>

definition json_ws :: "char \<Rightarrow> bool" where
  "json_ws c = (c = CHR '' '' \<or> c = CHR 0x09 \<or> c = CHR 0x0A \<or> c = CHR 0x0D)"

definition skip_ws :: "string \<Rightarrow> string" where
  "skip_ws s = dropWhile json_ws s"

definition is_digit :: "char \<Rightarrow> bool" where
  "is_digit c = (48 \<le> (of_char c :: nat) \<and> (of_char c :: nat) \<le> 57)"

definition digits_value :: "string \<Rightarrow> int" where
  "digits_value ds = foldl (\<lambda>a c. 10 * a + (int (of_char c) - 48)) 0 ds"

text \<open>The characters of a string up to the closing quote, \<open>acc\<close> holding them reversed.\<close>

fun scan_string :: "string \<Rightarrow> string \<Rightarrow> (string \<times> string) option" where
  "scan_string [] acc = None"
| "scan_string (c # cs) acc =
     (if c = CHR 0x22 then Some (rev acc, cs)
      else if c = CHR 0x5C \<or> (of_char c :: nat) < 32 then None
      else scan_string cs (c # acc))"

definition scan_number :: "string \<Rightarrow> (json \<times> string) option" where
  "scan_number s =
     (let neg = (case s of [] \<Rightarrow> False | c # cs \<Rightarrow> c = CHR ''-'');
          t = (if neg then tl s else s);
          ds = (case t of [] \<Rightarrow> [] | c # cs \<Rightarrow> if c = CHR ''0'' then [c] else takeWhile is_digit t);
          r = drop (length ds) t
      in if ds = [] then None
         else if (case r of [] \<Rightarrow> False | c # cs \<Rightarrow> c = CHR ''.'' \<or> c = CHR ''e'' \<or> c = CHR ''E'')
           then None
         else Some (JInt (if neg then - digits_value ds else digits_value ds), r))"

text \<open>Storing under a key of a dict: a key that is present keeps its place.\<close>

fun dict_set :: "(string \<times> json) list \<Rightarrow> string \<Rightarrow> json \<Rightarrow> (string \<times> json) list" where
  "dict_set [] k v = [(k, v)]"
| "dict_set ((k', v') # d) k v = (if k' = k then (k, v) # d else (k', v') # dict_set d k v)"

text \<open>
  Recursive descent. The first argument is the number of nested calls that are still
  allowed; when it is used up, the text is rejected. \<open>json_loads\<close> starts with twice the
  length of the text plus two, which the examples below do not use up.
\<close>

fun parse_value :: "nat \<Rightarrow> string \<Rightarrow> (json \<times> string) option"
and parse_elems :: "nat \<Rightarrow> string \<Rightarrow> json list \<Rightarrow> (json \<times> string) option"
and parse_members :: "nat \<Rightarrow> string \<Rightarrow> (string \<times> json) list \<Rightarrow> (json \<times> string) option" where
  "parse_value 0 s = None"
| "parse_value (Suc n) s =
     (case skip_ws s of
        [] \<Rightarrow> None
      | c # cs \<Rightarrow>
          if c = CHR ''['' then
            (case skip_ws cs of
               [] \<Rightarrow> None
             | c' # cs' \<Rightarrow> if c' = CHR '']'' then Some (JArr [], cs') else parse_elems n cs [])
          else if c = CHR ''{'' then
            (case skip_ws cs of
               [] \<Rightarrow> None
             | c' # cs' \<Rightarrow> if c' = CHR ''}'' then Some (JObj [], cs') else parse_members n cs [])
          else if c = CHR 0x22 then
            (case scan_string cs [] of None \<Rightarrow> None | Some (t, r) \<Rightarrow> Some (JStr t, r))
          else if prefix ''null'' (c # cs) then Some (JNull, drop 4 (c # cs))
          else if prefix ''true'' (c # cs) then Some (JBool True, drop 4 (c # cs))
          else if prefix ''false'' (c # cs) then Some (JBool False, drop 5 (c # cs))
          else scan_number (c # cs))"
| "parse_elems 0 s acc = None"
| "parse_elems (Suc n) s acc =
     (case parse_value n s of
        None \<Rightarrow> None
      | Some (v, r) \<Rightarrow>
          (case skip_ws r of
             [] \<Rightarrow> None
           | c # cs \<Rightarrow>
               if c = CHR '','' then parse_elems n cs (acc @ [v])
               else if c = CHR '']'' then Some (JArr (acc @ [v]), cs)
               else None))"
| "parse_members 0 s acc = None"
| "parse_members (Suc n) s acc =
     (case skip_ws s of
        [] \<Rightarrow> None
      | c # cs \<Rightarrow>
          if c \<noteq> CHR 0x22 then None
          else
            (case scan_string cs [] of
               None \<Rightarrow> None
             | Some (k, r) \<Rightarrow>
                 (case skip_ws r of
                    [] \<Rightarrow> None
                  | c' # cs' \<Rightarrow>
                      if c' \<noteq> CHR '':'' then None
                      else
                        (case parse_value n cs' of
                           None \<Rightarrow> None
                         | Some (v, r') \<Rightarrow>
                             (case skip_ws r' of
                                [] \<Rightarrow> None
                              | c'' # cs'' \<Rightarrow>
                                  if c'' = CHR '','' then parse_members n cs'' (dict_set acc k v)
                                  else if c'' = CHR ''}'' then Some (JObj (dict_set acc k v), cs'')
                                  else None)))))"

definition json_loads :: "string \<Rightarrow> py_exn + json" where
  "json_loads s =
     (case parse_value (2 * length s + 2) s of
        None \<Rightarrow> Inl JSONDecodeError
      | Some (v, r) \<Rightarrow> if skip_ws r = [] then Inr v else Inl JSONDecodeError)"

text \<open>
  A stand-in for the lenient parser in the closed examples, none of which calls the
  lenient parser: either the strict parse succeeds or the response is not a text.
\<close>

definition repair_unused :: "string \<Rightarrow> py_exn + json" where
  "repair_unused s = Inl OtherError"

section \<open>Reference formulations\<close>

text \<open>
  What one page contributes to the extracted text: nothing when the page has no text,
  and its text followed by a newline otherwise.
\<close>

definition page_line :: "string option \<Rightarrow> string" where
  "page_line page_text = (case page_text of None \<Rightarrow> [] | Some t \<Rightarrow> if t = [] then [] else t @ newline)"

text \<open>
  The answer field of a question, as \<^verbatim>\<open>q.get("answer", "")\<close> reads it, and the number of
  questions whose stored answer is equal to it by Python's \<^verbatim>\<open>==\<close>, which is what the
  code compares with.
\<close>

definition answer_of :: "json \<Rightarrow> json" where
  "answer_of q =
     (case q of
        JObj d \<Rightarrow> (case map_of d ''answer'' of None \<Rightarrow> JStr [] | Some v \<Rightarrow> v)
      | _ \<Rightarrow> JStr [])"

definition correct_count :: "json list \<Rightarrow> json list \<Rightarrow> nat" where
  "correct_count questions answers =
     length (filter (\<lambda>(q, a). py_eq a (answer_of q)) (zip questions answers))"

text \<open>
  The count in the words of the specification: the questions whose stored answer and
  answer field are both strings, and the same string.
\<close>

definition is_string :: "json \<Rightarrow> bool" where
  "is_string v = (case v of JStr s \<Rightarrow> True | _ \<Rightarrow> False)"

definition string_equal :: "json \<Rightarrow> json \<Rightarrow> bool" where
  "string_equal a b = (case a of JStr s \<Rightarrow> (case b of JStr t \<Rightarrow> s = t | _ \<Rightarrow> False) | _ \<Rightarrow> False)"

definition string_equal_count :: "json list \<Rightarrow> json list \<Rightarrow> nat" where
  "string_equal_count questions answers =
     length (filter (\<lambda>(q, a). string_equal a (answer_of q)) (zip questions answers))"

text \<open>
  A payload inside a fenced block: the opening marker, tagged or plain, on a line of its
  own before the payload, and the closing marker on a line of its own behind it.
\<close>

definition wrap_json_fence :: "string \<Rightarrow> string" where
  "wrap_json_fence p = fence_json @ newline @ p @ newline @ fence"

definition wrap_fence :: "string \<Rightarrow> string" where
  "wrap_fence p = fence @ newline @ p @ newline @ fence"

text \<open>The lists among the values, which stand for the sequences of the specification.\<close>

definition is_sequence :: "json \<Rightarrow> bool" where
  "is_sequence v = (case v of JArr xs \<Rightarrow> True | _ \<Rightarrow> False)"

section \<open>Example data\<close>

text \<open>An attempt and a session with six attempts in its history, for the closed examples.\<close>

definition sample_attempt :: "nat \<Rightarrow> attempt" where
  "sample_attempt n =
     \<lparr>att_type = ''Auto'', att_topic = ''Automata Theory'',
      att_score = show_nat n @ ''/8'', att_time = ''09:30''\<rparr>"

definition sample_session :: session where
  "sample_session =
     \<lparr>user_answers = Some [JStr ''B''], submitted = False,
      quiz_history = map sample_attempt [1, 2, 3, 4, 5, 6]\<rparr>"

text \<open>
  Three questions for the closed examples: a well-formed multiple-choice question, one
  with three options only, and a true/false question with three options; a user who
  selects nothing, and one who selects the second option of the first question.
\<close>

definition no_pick :: "string \<Rightarrow> nat option" where
  "no_pick key = None"

definition fresh_session :: session where
  "fresh_session = \<lparr>user_answers = None, submitted = False, quiz_history = []\<rparr>"

definition mcq_question :: json where
  "mcq_question =
     JObj [(''type'', JStr ''MCQ''), (''question'', JStr ''2+2?''),
           (''options'', JArr [JStr ''A) 3'', JStr ''B) 4'', JStr ''C) 5'', JStr ''D) 6'']),
           (''answer'', JStr ''B) 4''), (''difficulty'', JStr ''Easy''),
           (''explanation'', JStr ''2+2=4'')]"

definition tf_fields :: "(string \<times> json) list" where
  "tf_fields =
          [(''type'', JStr ''True/False''), (''question'', JStr ''A stack is LIFO.''),
           (''options'', JArr [JStr ''True'', JStr ''False'', JStr ''Maybe'']),
           (''answer'', JStr ''True''), (''difficulty'', JStr ''Easy''),
           (''explanation'', JStr ''Last in, first out.'')]"

definition tf_question :: json where
  "tf_question = JObj tf_fields"

definition short_mcq_fields :: "(string \<times> json) list" where
  "short_mcq_fields =
          [(''type'', JStr ''MCQ''), (''question'', JStr ''1+1?''),
           (''options'', JArr [JStr ''A) 1'', JStr ''B) 2'', JStr ''C) 3'']),
           (''answer'', JStr ''B) 2''), (''difficulty'', JStr ''Easy''),
           (''explanation'', JStr ''1+1=2'')]"

definition short_mcq_question :: json where
  "short_mcq_question = JObj short_mcq_fields"

definition pick_second :: "string \<Rightarrow> nat option" where
  "pick_second key = (if key = ''auto_q1'' then Some 1 else None)"

text \<open>
  A question of another type whose answer field is \<^verbatim>\<open>null\<close>, and a user who selects the
  first option of the first question.
\<close>

definition open_question :: json where
  "open_question =
     JObj [(''type'', JStr ''Short answer''), (''question'', JStr ''Name a sorting algorithm.''),
           (''answer'', JNull), (''difficulty'', JStr ''Easy''),
           (''explanation'', JStr ''Any of them.'')]"

definition pick_first :: "string \<Rightarrow> nat option" where
  "pick_first key = (if key = ''auto_q1'' then Some 0 else None)"

section \<open>Properties of the text extraction\<close>

lemma extract_pages_all_ok:
  "extract_pages (map Inr texts) acc = Inr (acc @ concat (map page_line texts))"
  by (induction texts arbitrary: acc) (auto simp: page_line_def split: option.splits)

lemma extract_pages_raises:
  "Inl e \<in> set pages \<Longrightarrow> \<exists>e'. extract_pages pages acc = Inl e'"
proof (induction pages arbitrary: acc)
  case Nil
  then show ?case by simp
next
  case (Cons p ps)
  show ?case
  proof (cases p)
    case (Inl e0)
    then show ?thesis by simp
  next
    case (Inr t)
    with Cons.prems have "Inl e \<in> set ps" by auto
    from Cons.IH[OF this] show ?thesis using Inr by simp
  qed
qed

text \<open>
  C7: when every page can be read, the extracted text is the concatenation of what the
  pages contribute, cut to its first 8000 characters; the result never has more than
  8000 characters; and when opening the document or reading one of its pages raises,
  the message is displayed and the result is the empty text.
\<close>

theorem extract_text_from_pdf_spec:
  "extract_text_from_pdf (Inr (map Inr texts)) = ([], take 8000 (concat (map page_line texts)))
   \<and> length (snd (extract_text_from_pdf pdf_file)) \<le> 8000
   \<and> extract_text_from_pdf (Inl e) = ([PdfError e], [])
   \<and> (Inl e \<in> set pages \<longrightarrow> snd (extract_text_from_pdf (Inr pages)) = [])"
proof (intro conjI impI)
  show "extract_text_from_pdf (Inr (map Inr texts)) = ([], take 8000 (concat (map page_line texts)))"
    by (simp add: extract_text_from_pdf_def extract_pages_all_ok)
  show "length (snd (extract_text_from_pdf pdf_file)) \<le> 8000"
    by (simp add: extract_text_from_pdf_def split: sum.splits)
  show "extract_text_from_pdf (Inl e) = ([PdfError e], [])"
    by (simp add: extract_text_from_pdf_def)
next
  assume "Inl e \<in> set pages"
  then obtain e' where "extract_pages pages [] = Inl e'"
    using extract_pages_raises by blast
  then show "snd (extract_text_from_pdf (Inr pages)) = []"
    by (simp add: extract_text_from_pdf_def)
qed

theorem extract_text_from_pdf_spec_witness:
  "Inl OtherError \<in> set [Inr (Some ''ab''), Inl OtherError]
   \<and> snd (extract_text_from_pdf (Inr [Inr (Some ''ab''), Inl OtherError])) = []
   \<and> extract_text_from_pdf (Inr (map Inr [Some ''ab'', None, Some [], Some ''c'']))
       = ([], ''ab'' @ newline @ ''c'' @ newline)"
  using extract_text_from_pdf_spec [of "[Some ''ab'', None, Some [], Some ''c'']" "Inl OtherError"
      OtherError "[Inr (Some ''ab''), Inl OtherError]"]
  by (simp add: page_line_def newline_def)

section \<open>Properties of the history\<close>

lemma py_last_n_length: "length (py_last_n n xs) = min n (length xs)"
  by (simp add: py_last_n_def)

lemma rev_py_last_n_nth:
  assumes "i < min n (length xs)"
  shows "rev (py_last_n n xs) ! i = xs ! (length xs - 1 - i)"
proof -
  define k where "k = length xs - n"
  have len: "length (drop k xs) = min n (length xs)"
    by (simp add: k_def)
  have "rev (drop k xs) ! i = drop k xs ! (length (drop k xs) - Suc i)"
    using assms len by (simp add: rev_nth)
  also have "\<dots> = xs ! (k + (length (drop k xs) - Suc i))"
    by (rule nth_drop) (simp add: k_def)
  also have "k + (length (drop k xs) - Suc i) = length xs - 1 - i"
  proof -
    have "k + (min n (length xs) - Suc i) = length xs - 1 - i"
      using assms unfolding k_def by arith
    then show ?thesis by (simp only: len)
  qed
  finally show ?thesis by (simp add: py_last_n_def k_def)
qed

text \<open>
  C8: the three operations on the history. Submitting appends the new attempt at the end
  of the history, whatever the history holds already. The sidebar lists the last five
  attempts, the most recent one first, and leaves the state as it is. Pressing the clear
  button sets the history to the empty list, after which the sidebar lists no attempt.
\<close>

theorem history_log_operations:
  "(tally 1 questions answers 0 = Inr c \<longrightarrow>
      quiz_history (snd (submit_answers now topic quiz_type questions answers st)) =
        quiz_history st @
          [\<lparr>att_type = quiz_type, att_topic = topic,
            att_score = show_nat c @ ''/'' @ show_nat (length questions), att_time = now\<rparr>])
   \<and> (quiz_history st \<noteq> [] \<longrightarrow>
        sidebar False st =
          (map history_line (rev (py_last_n 5 (quiz_history st))) @ [ClearButton], st, False))
   \<and> length (py_last_n 5 h) = min 5 (length h)
   \<and> (\<forall>i < min 5 (length h). rev (py_last_n 5 h) ! i = h ! (length h - 1 - i))
   \<and> (quiz_history st \<noteq> [] \<longrightarrow>
        snd (sidebar True st) = (st\<lparr>quiz_history := []\<rparr>, True)
        \<and> sidebar b (st\<lparr>quiz_history := []\<rparr>) = ([NoAttempts], st\<lparr>quiz_history := []\<rparr>, False))"
proof (intro conjI impI allI)
  assume "tally 1 questions answers 0 = Inr c"
  then show "quiz_history (snd (submit_answers now topic quiz_type questions answers st)) =
        quiz_history st @
          [\<lparr>att_type = quiz_type, att_topic = topic,
            att_score = show_nat c @ ''/'' @ show_nat (length questions), att_time = now\<rparr>]"
    by (simp add: submit_answers_def)
next
  assume "quiz_history st \<noteq> []"
  then show "sidebar False st =
          (map history_line (rev (py_last_n 5 (quiz_history st))) @ [ClearButton], st, False)"
    by (simp add: sidebar_def)
next
  show "length (py_last_n 5 h) = min 5 (length h)"
    by (rule py_last_n_length)
next
  fix i assume "i < min 5 (length h)"
  then show "rev (py_last_n 5 h) ! i = h ! (length h - 1 - i)"
    by (rule rev_py_last_n_nth)
next
  assume "quiz_history st \<noteq> []"
  then show "snd (sidebar True st) = (st\<lparr>quiz_history := []\<rparr>, True)"
    by (simp add: sidebar_def)
next
  show "sidebar b (st\<lparr>quiz_history := []\<rparr>) = ([NoAttempts], st\<lparr>quiz_history := []\<rparr>, False)"
    by (simp add: sidebar_def)
qed

theorem history_log_operations_witness:
  "tally 1 [JObj [(''answer'', JStr ''B'')]] [JStr ''B''] 0 = Inr 1
   \<and> quiz_history (snd (submit_answers ''10:15'' ''Automata Theory'' ''Auto''
         [JObj [(''answer'', JStr ''B'')]] [JStr ''B''] sample_session)) =
       map sample_attempt [1, 2, 3, 4, 5, 6] @
         [\<lparr>att_type = ''Auto'', att_topic = ''Automata Theory'', att_score = ''1/1'',
           att_time = ''10:15''\<rparr>]
   \<and> quiz_history sample_session \<noteq> []
   \<and> sidebar False sample_session =
       (map history_line (map sample_attempt [6, 5, 4, 3, 2]) @ [ClearButton],
        sample_session, False)
   \<and> (0::nat) < min 5 (length (map sample_attempt [1, 2, 3, 4, 5, 6]))
   \<and> rev (py_last_n 5 (map sample_attempt [1, 2, 3, 4, 5, 6])) ! 0 = sample_attempt 6
   \<and> snd (sidebar True sample_session) = (sample_session\<lparr>quiz_history := []\<rparr>, True)
   \<and> sidebar False (sample_session\<lparr>quiz_history := []\<rparr>) =
       ([NoAttempts], sample_session\<lparr>quiz_history := []\<rparr>, False)"
proof -
  have t: "tally 1 [JObj [(''answer'', JStr ''B'')]] [JStr ''B''] 0 = Inr 1"
    by simp
  have n: "quiz_history sample_session \<noteq> []"
    by (simp add: sample_session_def)
  have s: "show_nat 1 = ''1''"
    by code_simp
  have l: "py_last_n 5 (map sample_attempt [1, 2, 3, 4, 5, 6]) = map sample_attempt [2, 3, 4, 5, 6]"
    by (simp add: py_last_n_def)
  have m: "(0::nat) < min 5 (length (map sample_attempt [1, 2, 3, 4, 5, 6]))"
    by simp
  note h = history_log_operations [of "[JObj [(''answer'', JStr ''B'')]]" "[JStr ''B'']" 1
      "''10:15''" "''Automata Theory''" "''Auto''" sample_session
      "map sample_attempt [1, 2, 3, 4, 5, 6]" False]
  from h t n m s l show ?thesis
    by (simp add: sample_session_def)
qed

section \<open>Properties of the fence detection\<close>

lemma find_sub_Some_iff:
  "find_sub sub s = Some i \<longleftrightarrow>
     i \<le> length s \<and> prefix sub (drop i s) \<and> (\<forall>j<i. \<not> prefix sub (drop j s))"
proof (induction s arbitrary: i)
  case Nil
  then show ?case by auto
next
  case (Cons c cs)
  show ?case
  proof (cases "prefix sub (c # cs)")
    case True
    then show ?thesis by (cases i) auto
  next
    case False
    show ?thesis
    proof (cases i)
      case 0
      with False show ?thesis by simp
    next
      case (Suc i')
      have "(\<forall>j<Suc i'. \<not> prefix sub (drop j (c # cs))) \<longleftrightarrow> (\<forall>j<i'. \<not> prefix sub (drop j cs))"
        using False by (auto simp: less_Suc_eq_0_disj)
      with False Suc Cons.IH[of i'] show ?thesis by simp
    qed
  qed
qed

lemma find_sub_None_iff:
  "find_sub sub s = None \<longleftrightarrow> (\<forall>j\<le>length s. \<not> prefix sub (drop j s))"
proof (induction s)
  case Nil
  then show ?case by auto
next
  case (Cons c cs)
  have "(\<forall>j\<le>length (c # cs). \<not> prefix sub (drop j (c # cs))) \<longleftrightarrow>
        \<not> prefix sub (c # cs) \<and> (\<forall>j\<le>length cs. \<not> prefix sub (drop j cs))"
    by (auto simp: le_less less_Suc_eq_0_disj)
  with Cons.IH show ?case by simp
qed

lemma py_find_0: "py_find s sub 0 = find_sub sub s"
  by (cases "find_sub sub s") (simp_all add: py_find_def)

lemma fenced_slice_unterminated:
  "py_find s fence start = None \<Longrightarrow> fenced_slice s start = py_strip (drop start s)"
  by (simp add: fenced_slice_def py_slice_def)

text \<open>
  C9: an unterminated fence. When the first \<^verbatim>\<open>```json\<close> marker of the response is at
  index \<open>i\<close> and no \<^verbatim>\<open>```\<close> follows from index \<open>i + 7\<close> on, the text taken for parsing
  is the response from index \<open>i + 7\<close> to its end, stripped; likewise, with no
  \<^verbatim>\<open>```json\<close> marker, for the first \<^verbatim>\<open>```\<close> marker and index \<open>i + 3\<close>.
\<close>

theorem unterminated_fence:
  "(py_find s fence_json 0 = Some i \<and> py_find s fence (i + 7) = None \<longrightarrow>
      extract_json_str s = py_strip (drop (i + 7) s))
   \<and> (py_find s fence_json 0 = None \<and> py_find s fence 0 = Some i \<and> py_find s fence (i + 3) = None \<longrightarrow>
      extract_json_str s = py_strip (drop (i + 3) s))"
  by (simp add: extract_json_str_def py_in_str_def py_find_0 fenced_slice_unterminated)

theorem unterminated_fence_witness:
  "py_find ''Sure: ```json [1, 2] '' fence_json 0 = Some 6
   \<and> py_find ''Sure: ```json [1, 2] '' fence (6 + 7) = None
   \<and> extract_json_str ''Sure: ```json [1, 2] '' = ''[1, 2]''
   \<and> py_find ''ok ``` [3]'' fence_json 0 = None
   \<and> py_find ''ok ``` [3]'' fence 0 = Some 3
   \<and> py_find ''ok ``` [3]'' fence (3 + 3) = None
   \<and> extract_json_str ''ok ``` [3]'' = ''[3]''"
proof -
  have a: "py_find ''Sure: ```json [1, 2] '' fence_json 0 = Some 6" by code_simp
  have b: "py_find ''Sure: ```json [1, 2] '' fence (6 + 7) = None" by code_simp
  have c: "py_find ''ok ``` [3]'' fence_json 0 = None" by code_simp
  have d: "py_find ''ok ``` [3]'' fence 0 = Some 3" by code_simp
  have e: "py_find ''ok ``` [3]'' fence (3 + 3) = None" by code_simp
  have s1: "py_strip (drop (6 + 7) ''Sure: ```json [1, 2] '') = ''[1, 2]''" by code_simp
  have s2: "py_strip (drop (3 + 3) ''ok ``` [3]'') = ''[3]''" by code_simp
  from unterminated_fence [of "''Sure: ```json [1, 2] ''" 6] a b s1
  have r1: "extract_json_str ''Sure: ```json [1, 2] '' = ''[1, 2]''" by simp
  from unterminated_fence [of "''ok ``` [3]''" 3] c d e s2
  have r2: "extract_json_str ''ok ``` [3]'' = ''[3]''" by simp
  from a b c d e r1 r2 show ?thesis by blast
qed

section \<open>Properties of the scoring\<close>

lemma dict_get_answer: "dict_get (JObj d) ''answer'' (JStr []) = Inr (answer_of (JObj d))"
  by (simp add: answer_of_def)

lemma tally_feedback:
  "tally i questions answers c =
     (case feedback i questions answers c of
        (None, out, n) \<Rightarrow> Inr n
      | (Some e, out, n) \<Rightarrow> Inl e)"
proof (induction questions arbitrary: i c)
  case Nil
  show ?case by simp
next
  case (Cons q qs)
  show ?case
  proof (cases q)
    case (JObj d)
    then show ?thesis
      using Cons.IH
      by (simp add: Let_def split: prod.splits option.splits)
  qed simp_all
qed

lemma tally_correct_count:
  assumes "\<forall>q\<in>set questions. \<exists>d. q = JObj d"
    and "i - 1 + length questions \<le> length answers"
    and "0 < i"
  shows "tally i questions answers c = Inr (c + correct_count questions (drop (i - 1) answers))"
  using assms
proof (induction questions arbitrary: i c)
  case Nil
  show ?case by (simp add: correct_count_def)
next
  case (Cons q qs)
  from Cons.prems obtain d where q: "q = JObj d" by auto
  have lt: "i - 1 < length answers" using Cons.prems by simp
  have dr: "drop (i - 1) answers = answers ! (i - 1) # drop (i + 1 - 1) answers"
    using lt \<open>0 < i\<close> Cons_nth_drop_Suc[of "i - 1" answers] by simp
  have ih: "tally (i + 1) qs answers c' = Inr (c' + correct_count qs (drop (i + 1 - 1) answers))" for c'
    using Cons.prems by (intro Cons.IH) auto
  have step: "tally i (q # qs) answers c =
      tally (i + 1) qs answers (if py_eq (answers ! (i - 1)) (answer_of q) then c + 1 else c)"
    using lt by (simp add: q answer_of_def)
  have cc: "correct_count (q # qs) (drop (i - 1) answers) =
      (if py_eq (answers ! (i - 1)) (answer_of q) then 1 else 0)
        + correct_count qs (drop (i + 1 - 1) answers)"
    by (subst dr) (simp add: correct_count_def)
  show ?case
    unfolding step ih cc by simp
qed

lemma tally_ok_feedback:
  assumes "tally i questions answers c = Inr n"
  obtains out where "feedback i questions answers c = (None, out, n)"
  using assms unfolding tally_feedback
  by (auto split: prod.splits option.splits)

lemma tally_raises_feedback:
  assumes "tally i questions answers c = Inl e"
  shows "fst (feedback i questions answers c) = Some e"
  using assms unfolding tally_feedback
  by (auto split: prod.splits option.splits)

text \<open>
  C6: the score at submission and the score of a later display agree. When the scoring
  loop of the submit handler counts \<open>c\<close> for the questions and the stored answers, the
  score put into the history is \<open>c\<close> over the number of questions, and the feedback loop,
  run on the same questions and the same stored answers, displays the score \<open>c\<close> over the
  number of questions; when the first loop raises, the second one raises the same
  exception.
\<close>

theorem scoring_idempotent:
  "(tally 1 questions answers 0 = Inr c \<longrightarrow>
      att_score (last (quiz_history (snd (submit_answers now topic quiz_type questions answers st))))
        = show_nat c @ ''/'' @ show_nat (length questions)
      \<and> (\<exists>out. show_results questions answers =
            (None, out @ [Score c (length questions)] @
                     (if c = length questions then [Balloons] else []))))
   \<and> (tally 1 questions answers 0 = Inl e \<longrightarrow> fst (show_results questions answers) = Some e)"
proof (intro conjI impI)
  assume t: "tally 1 questions answers 0 = Inr c"
  then show "att_score (last (quiz_history (snd (submit_answers now topic quiz_type questions answers st))))
        = show_nat c @ ''/'' @ show_nat (length questions)"
    by (simp add: submit_answers_def)
  from t obtain out where "feedback 1 questions answers 0 = (None, out, c)"
    by (rule tally_ok_feedback)
  then show "\<exists>out. show_results questions answers =
            (None, out @ [Score c (length questions)] @
                     (if c = length questions then [Balloons] else []))"
    by (simp add: show_results_def)
next
  assume "tally 1 questions answers 0 = Inl e"
  from tally_raises_feedback[OF this] show "fst (show_results questions answers) = Some e"
    by (auto simp: show_results_def split: prod.splits option.splits)
qed

theorem scoring_idempotent_witness:
  "tally 1 [mcq_question, tf_question] [JStr ''B) 4'', JStr ''False''] 0 = Inr 1
   \<and> att_score (last (quiz_history (snd (submit_answers ''10:15'' ''Automata Theory'' ''Auto''
        [mcq_question, tf_question] [JStr ''B) 4'', JStr ''False''] fresh_session)))) = ''1/2''
   \<and> show_results [mcq_question, tf_question] [JStr ''B) 4'', JStr ''False''] =
        (None,
         [Correct 1, Explanation (JStr ''2+2=4''), Divider,
          Incorrect 2 (JStr ''True''), Explanation (JStr ''Last in, first out.''), Divider,
          Score 1 2])
   \<and> tally 1 [JStr ''MCQ''] [JNull] 0 = Inl AttributeError
   \<and> fst (show_results [JStr ''MCQ''] [JNull]) = Some AttributeError"
proof -
  have t: "tally 1 [mcq_question, tf_question] [JStr ''B) 4'', JStr ''False''] 0 = Inr 1"
    by code_simp
  have r: "show_results [mcq_question, tf_question] [JStr ''B) 4'', JStr ''False''] =
        (None,
         [Correct 1, Explanation (JStr ''2+2=4''), Divider,
          Incorrect 2 (JStr ''True''), Explanation (JStr ''Last in, first out.''), Divider,
          Score 1 2])"
    by code_simp
  have n: "show_nat 1 @ ''/'' @ show_nat (length [mcq_question, tf_question]) = ''1/2''"
    by code_simp
  have e: "tally 1 [JStr ''MCQ''] [JNull] 0 = Inl AttributeError"
    by simp
  from scoring_idempotent [of "[mcq_question, tf_question]" "[JStr ''B) 4'', JStr ''False'']" 1
      "''10:15''" "''Automata Theory''" "''Auto''" fresh_session AttributeError] t n
  have a: "att_score (last (quiz_history (snd (submit_answers ''10:15'' ''Automata Theory'' ''Auto''
        [mcq_question, tf_question] [JStr ''B) 4'', JStr ''False''] fresh_session)))) = ''1/2''"
    by simp
  from scoring_idempotent [of "[JStr ''MCQ'']" "[JNull]" 0 "''10:15''" "''Automata Theory''"
      "''Auto''" fresh_session AttributeError] e
  have b: "fst (show_results [JStr ''MCQ''] [JNull]) = Some AttributeError"
    by simp
  show ?thesis
    by (intro conjI; fact)
qed

section \<open>Properties of the rendering loop\<close>

lemma render_question_frame:
  assumes "render_question pick kp i q answers = (r, out, answers')"
  shows "length answers' = length answers \<and> (\<forall>j. j \<noteq> i - 1 \<longrightarrow> answers' ! j = answers ! j)"
proof (cases q)
  case (JObj d)
  with assms show ?thesis
    by (auto simp: Let_def split: sum.splits bool.splits if_splits json.splits)
qed (use assms in auto)

lemma render_question_ok_dict:
  "render_question pick kp i q answers = (None, out, answers') \<Longrightarrow> \<exists>d. q = JObj d"
  by (cases q) auto

lemma render_loop_Cons_ok:
  assumes "render_loop pick kp i (q # qs) answers = (None, out, answers')"
  obtains out1 a1 out2 where "render_question pick kp i q answers = (None, out1, a1)"
    and "render_loop pick kp (i + 1) qs a1 = (None, out2, answers')" and "out = out1 @ out2"
  using assms by (auto split: prod.splits option.splits)

lemma render_loop_frame:
  "render_loop pick kp i qs answers = (r, out, answers') \<Longrightarrow> 0 < i \<Longrightarrow>
     length answers' = length answers \<and> (\<forall>j < i - 1. answers' ! j = answers ! j)"
proof (induction qs arbitrary: i answers r out answers')
  case Nil
  then show ?case by simp
next
  case (Cons q qs)
  obtain r1 out1 a1 where rq: "render_question pick kp i q answers = (r1, out1, a1)"
    by (cases "render_question pick kp i q answers") auto
  note fr = render_question_frame[OF rq]
  show ?case
  proof (cases r1)
    case (Some e)
    with rq Cons.prems have "answers' = a1" by simp
    with fr show ?thesis by simp
  next
    case None
    obtain r2 out2 a2 where rl: "render_loop pick kp (i + 1) qs a1 = (r2, out2, a2)"
      by (cases "render_loop pick kp (i + 1) qs a1") auto
    with rq None Cons.prems have "answers' = a2" by simp
    moreover from Cons.IH[OF rl] have "length a2 = length a1 \<and> (\<forall>j < i. a2 ! j = a1 ! j)"
      by simp
    ultimately show ?thesis using fr by auto
  qed
qed

lemma render_loop_ok_dicts:
  "render_loop pick kp i qs answers = (None, out, answers') \<Longrightarrow> \<forall>q\<in>set qs. \<exists>d. q = JObj d"
proof (induction qs arbitrary: i answers out)
  case Nil
  then show ?case by simp
next
  case (Cons q qs)
  from Cons.prems obtain out1 a1 out2 where
    rq: "render_question pick kp i q answers = (None, out1, a1)"
    and rl: "render_loop pick kp (i + 1) qs a1 = (None, out2, answers')"
    by (rule render_loop_Cons_ok)
  from render_question_ok_dict[OF rq] Cons.IH[OF rl] show ?case by simp
qed

lemma render_loop_nth:
  assumes "render_loop pick kp i qs answers = (None, out, answers')"
    and "k < length qs" and "0 < i"
  shows "\<exists>mid out1 mid'.
           render_question pick kp (i + k) (qs ! k) mid = (None, out1, mid')
           \<and> length mid = length answers
           \<and> mid ! (i + k - 1) = answers ! (i + k - 1)
           \<and> answers' ! (i + k - 1) = mid' ! (i + k - 1)"
  using assms
proof (induction qs arbitrary: i k answers out)
  case Nil
  then show ?case by simp
next
  case (Cons q qs)
  from Cons.prems(1) obtain out1 a1 out2 where
    rq: "render_question pick kp i q answers = (None, out1, a1)"
    and rl: "render_loop pick kp (i + 1) qs a1 = (None, out2, answers')"
    by (rule render_loop_Cons_ok)
  note fq = render_question_frame[OF rq]
  show ?case
  proof (cases k)
    case 0
    from render_loop_frame[OF rl] \<open>0 < i\<close> have "answers' ! (i - 1) = a1 ! (i - 1)"
      by simp
    with rq 0 show ?thesis by auto
  next
    case (Suc k')
    with Cons.prems have "k' < length qs" by simp
    from Cons.IH[OF rl this] obtain mid o1 mid' where
      m: "render_question pick kp (i + 1 + k') (qs ! k') mid = (None, o1, mid')"
        "length mid = length a1" "mid ! (i + 1 + k' - 1) = a1 ! (i + 1 + k' - 1)"
        "answers' ! (i + 1 + k' - 1) = mid' ! (i + 1 + k' - 1)"
      by auto
    have "a1 ! (i + k') = answers ! (i + k')"
      using fq \<open>0 < i\<close> by simp
    with m fq Suc show ?thesis
      by (intro exI[of _ mid] exI[of _ o1] exI[of _ mid']) simp
  qed
qed

lemma st_radio_true_false:
  "index < 2 \<Longrightarrow> st_radio pick key [JStr ''True'', JStr ''False''] index \<in> {JStr ''True'', JStr ''False''}"
  by (auto simp: st_radio_def less_2_cases_iff nth_Cons' split: option.splits)

lemma render_true_false:
  assumes "map_of d ''type'' = Some (JStr ''True/False'')"
  shows "render_question pick kp i (JObj d) answers =
     (let head = [Heading i (case map_of d ''difficulty'' of None \<Rightarrow> JStr ''N/A'' | Some v \<Rightarrow> v),
                  Prompt (case map_of d ''question'' of None \<Rightarrow> JStr ''N/A'' | Some v \<Rightarrow> v)];
          key = kp @ ''_q'' @ show_nat i;
          index = (if answers ! (i - 1) = JStr ''False'' then 1 else 0)
      in if i - 1 < length answers then
           (None, head @ [Radio key [JStr ''True'', JStr ''False''] index, Divider],
            answers[i - 1 := st_radio pick key [JStr ''True'', JStr ''False''] index])
         else (Some (Raised IndexError), head, answers))"
  using assms by (auto simp: Let_def is_mcq4_def)

lemma sample_render:
  "render_loop pick_second ''auto'' 1 [mcq_question, short_mcq_question, tf_question]
     [JNull, JNull, JNull]
   = (None,
      [Heading 1 (JStr ''Easy''), Prompt (JStr ''2+2?''),
       Radio ''auto_q1'' [JStr ''A) 3'', JStr ''B) 4'', JStr ''C) 5'', JStr ''D) 6''] 0, Divider,
       Heading 2 (JStr ''Easy''), Prompt (JStr ''1+1?''), Divider,
       Heading 3 (JStr ''Easy''), Prompt (JStr ''A stack is LIFO.''),
       Radio ''auto_q3'' [JStr ''True'', JStr ''False''] 0, Divider],
      [JStr ''B) 4'', JNull, JStr ''True''])"
  by code_simp

text \<open>
  C10: a question whose type is the string \<^verbatim>\<open>True/False\<close>. Rendering it displays a radio
  widget with the two options \<^verbatim>\<open>True\<close> and \<^verbatim>\<open>False\<close>, whatever the options field of the
  question holds; the preselected position is 0, the option \<^verbatim>\<open>True\<close>, unless the stored
  answer is \<^verbatim>\<open>False\<close>; the answer stored afterwards is one of the two strings, and it is
  the preselected option as long as the user has selected nothing. After a rendering
  loop that ended without an exception, the stored answer of every such question is
  \<^verbatim>\<open>True\<close> or \<^verbatim>\<open>False\<close>.
\<close>

theorem true_false_widget:
  assumes "map_of d ''type'' = Some (JStr ''True/False'')"
  shows "(i - 1 < length answers \<longrightarrow>
           (\<exists>head index selected.
              render_question pick key_prefix i (JObj d) answers =
                (None,
                 head @ [Radio (key_prefix @ ''_q'' @ show_nat i) [JStr ''True'', JStr ''False''] index,
                         Divider],
                 answers[i - 1 := selected])
              \<and> (selected = JStr ''True'' \<or> selected = JStr ''False'')
              \<and> (index = 0 \<or> answers ! (i - 1) = JStr ''False'')
              \<and> (pick (key_prefix @ ''_q'' @ show_nat i) = None \<longrightarrow>
                   selected = [JStr ''True'', JStr ''False''] ! index)))
       \<and> (render_loop pick key_prefix 1 questions answers0 = (None, out, answers')
            \<and> k < length questions \<and> questions ! k = JObj d \<longrightarrow>
           k < length answers'
           \<and> (answers' ! k = JStr ''True'' \<or> answers' ! k = JStr ''False''))"
proof (intro conjI impI)
  assume lt: "i - 1 < length answers"
  define index :: nat where "index = (if answers ! (i - 1) = JStr ''False'' then 1 else 0)"
  define key where "key = key_prefix @ ''_q'' @ show_nat i"
  define selected where "selected = st_radio pick key [JStr ''True'', JStr ''False''] index"
  have "index < 2" by (simp add: index_def)
  from st_radio_true_false[OF this, of pick key]
  have sel: "selected = JStr ''True'' \<or> selected = JStr ''False''"
    by (simp add: selected_def)
  define head where "head =
       [Heading i (case map_of d ''difficulty'' of None \<Rightarrow> JStr ''N/A'' | Some v \<Rightarrow> v),
        Prompt (case map_of d ''question'' of None \<Rightarrow> JStr ''N/A'' | Some v \<Rightarrow> v)]"
  have r: "render_question pick key_prefix i (JObj d) answers =
      (None, head @ [Radio key [JStr ''True'', JStr ''False''] index, Divider],
       answers[i - 1 := selected])"
    using lt unfolding render_true_false[OF assms] Let_def index_def key_def selected_def head_def
    by simp
  have i0: "index = 0 \<or> answers ! (i - 1) = JStr ''False''"
    by (simp add: index_def)
  have dflt: "pick key = None \<longrightarrow> selected = [JStr ''True'', JStr ''False''] ! index"
    by (simp add: selected_def st_radio_def)
  from r sel i0 dflt show "\<exists>head index selected.
              render_question pick key_prefix i (JObj d) answers =
                (None,
                 head @ [Radio (key_prefix @ ''_q'' @ show_nat i) [JStr ''True'', JStr ''False''] index,
                         Divider],
                 answers[i - 1 := selected])
              \<and> (selected = JStr ''True'' \<or> selected = JStr ''False'')
              \<and> (index = 0 \<or> answers ! (i - 1) = JStr ''False'')
              \<and> (pick (key_prefix @ ''_q'' @ show_nat i) = None \<longrightarrow>
                   selected = [JStr ''True'', JStr ''False''] ! index)"
    unfolding key_def
    by (intro exI[of _ head] exI[of _ index] exI[of _ selected]) simp
next
  assume a: "render_loop pick key_prefix 1 questions answers0 = (None, out, answers')
            \<and> k < length questions \<and> questions ! k = JObj d"
  then have rl: "render_loop pick key_prefix 1 questions answers0 = (None, out, answers')"
    and k: "k < length questions" and q: "questions ! k = JObj d"
    by simp_all
  from render_loop_nth[OF rl k] q obtain mid out1 mid' where
    m: "render_question pick key_prefix (1 + k) (JObj d) mid = (None, out1, mid')"
      "length mid = length answers0" "answers' ! (1 + k - 1) = mid' ! (1 + k - 1)"
    by auto
  have len: "length answers' = length answers0"
    using render_loop_frame[OF rl] by simp
  from m(1) have inr: "k < length mid"
    unfolding render_true_false[OF assms] Let_def by (simp split: if_splits)
  define idx :: nat where "idx = (if mid ! k = JStr ''False'' then 1 else 0)"
  define sel where "sel = st_radio pick (key_prefix @ ''_q'' @ show_nat (1 + k))
      [JStr ''True'', JStr ''False''] idx"
  have "idx < 2" by (simp add: idx_def)
  from st_radio_true_false[OF this] have s: "sel \<in> {JStr ''True'', JStr ''False''}"
    by (simp add: sel_def)
  have "mid' = mid[k := sel]"
    using m(1) inr unfolding render_true_false[OF assms] Let_def sel_def idx_def
    by simp
  with s inr have "mid' ! k \<in> {JStr ''True'', JStr ''False''}"
    by simp
  with m inr len show "k < length answers'" and
    "answers' ! k = JStr ''True'' \<or> answers' ! k = JStr ''False''"
    by auto
qed

theorem true_false_widget_witness:
  "map_of tf_fields ''type'' = Some (JStr ''True/False'')
   \<and> (1::nat) - 1 < length [JNull]
   \<and> render_question no_pick ''auto'' 1 (JObj tf_fields) [JNull]
       = (None,
          [Heading 1 (JStr ''Easy''), Prompt (JStr ''A stack is LIFO.'')] @
            [Radio (''auto'' @ ''_q'' @ show_nat 1) [JStr ''True'', JStr ''False''] 0, Divider],
          [JNull][1 - 1 := JStr ''True''])
   \<and> no_pick (''auto'' @ ''_q'' @ show_nat 1) = None
   \<and> fst (render_loop pick_second ''auto'' 1 [mcq_question, short_mcq_question, tf_question]
             [JNull, JNull, JNull]) = None
   \<and> (2::nat) < length [mcq_question, short_mcq_question, tf_question]
   \<and> [mcq_question, short_mcq_question, tf_question] ! 2 = JObj tf_fields
   \<and> snd (snd (render_loop pick_second ''auto'' 1 [mcq_question, short_mcq_question, tf_question]
                  [JNull, JNull, JNull])) ! 2 = JStr ''True''"
proof -
  have ty: "map_of tf_fields ''type'' = Some (JStr ''True/False'')"
    by (simp add: tf_fields_def)
  have q: "[mcq_question, short_mcq_question, tf_question] ! 2 = JObj tf_fields"
    by (simp add: tf_question_def)
  have r: "render_question no_pick ''auto'' 1 (JObj tf_fields) [JNull]
       = (None,
          [Heading 1 (JStr ''Easy''), Prompt (JStr ''A stack is LIFO.'')] @
            [Radio (''auto'' @ ''_q'' @ show_nat 1) [JStr ''True'', JStr ''False''] 0, Divider],
          [JNull][1 - 1 := JStr ''True''])"
    by code_simp
  have l: "snd (snd (render_loop pick_second ''auto'' 1 [mcq_question, short_mcq_question, tf_question]
                  [JNull, JNull, JNull])) ! 2 = JStr ''True''"
    using true_false_widget [where d = tf_fields and pick = pick_second
      and key_prefix = "''auto''" and k = 2
      and questions = "[mcq_question, short_mcq_question, tf_question]"
      and ?answers0.0 = "[JNull, JNull, JNull]"] ty q sample_render
    by simp
  have f: "fst (render_loop pick_second ''auto'' 1 [mcq_question, short_mcq_question, tf_question]
             [JNull, JNull, JNull]) = None"
    by (simp only: sample_render fst_conv)
  have m: "(1::nat) - 1 < length [JNull]" "no_pick (''auto'' @ ''_q'' @ show_nat 1) = None"
    "(2::nat) < length [mcq_question, short_mcq_question, tf_question]"
    by (simp_all add: no_pick_def)
  show ?thesis
    by (intro conjI; fact)
qed

text \<open>
  C2, as the code has it: a question of type \<^verbatim>\<open>MCQ\<close> whose options have a length other
  than 4. Rendering it displays the heading, the question and the divider, but no radio
  widget, and leaves every stored answer as it was; after a rendering loop that ended
  without an exception, the stored answer of such a question is the one from before the
  loop; and the scoring loop does not count the question when its stored answer is unset
  and its answer field is not \<^verbatim>\<open>null\<close>.
\<close>

theorem mcq_wrong_cardinality:
  assumes "map_of d ''type'' = Some (JStr ''MCQ'')"
    and "py_len (case map_of d ''options'' of None \<Rightarrow> JArr [] | Some v \<Rightarrow> v) = Inr n"
    and "n \<noteq> 4"
  shows "render_question pick key_prefix i (JObj d) answers =
           (None,
            [Heading i (case map_of d ''difficulty'' of None \<Rightarrow> JStr ''N/A'' | Some v \<Rightarrow> v),
             Prompt (case map_of d ''question'' of None \<Rightarrow> JStr ''N/A'' | Some v \<Rightarrow> v),
             Divider],
            answers)
       \<and> (render_loop pick key_prefix 1 questions answers0 = (None, out, answers')
            \<and> k < length questions \<and> questions ! k = JObj d \<longrightarrow>
           answers' ! k = answers0 ! k)
       \<and> (0 < i \<and> i - 1 < length answers \<and> answers ! (i - 1) = JNull
            \<and> map_of d ''answer'' \<noteq> Some JNull \<longrightarrow>
           tally i (JObj d # qs) answers c = tally (i + 1) qs answers c)"
proof (intro conjI impI)
  show r: "render_question pick key_prefix i (JObj d) answers =
           (None,
            [Heading i (case map_of d ''difficulty'' of None \<Rightarrow> JStr ''N/A'' | Some v \<Rightarrow> v),
             Prompt (case map_of d ''question'' of None \<Rightarrow> JStr ''N/A'' | Some v \<Rightarrow> v),
             Divider],
            answers)" for i answers
    using assms by (simp add: Let_def is_mcq4_def)
  assume a: "render_loop pick key_prefix 1 questions answers0 = (None, out, answers')
            \<and> k < length questions \<and> questions ! k = JObj d"
  then have rl: "render_loop pick key_prefix 1 questions answers0 = (None, out, answers')"
    and k: "k < length questions" and q: "questions ! k = JObj d"
    by simp_all
  from render_loop_nth[OF rl k] q obtain mid out1 mid' where
    m: "render_question pick key_prefix (1 + k) (JObj d) mid = (None, out1, mid')"
      "mid ! (1 + k - 1) = answers0 ! (1 + k - 1)" "answers' ! (1 + k - 1) = mid' ! (1 + k - 1)"
    by auto
  from m(1) have "mid' = mid" unfolding r by simp
  with m show "answers' ! k = answers0 ! k" by simp
next
  assume b: "0 < i \<and> i - 1 < length answers \<and> answers ! (i - 1) = JNull
            \<and> map_of d ''answer'' \<noteq> Some JNull"
  then have "\<not> py_eq (answers ! (i - 1)) (case map_of d ''answer'' of None \<Rightarrow> JStr [] | Some v \<Rightarrow> v)"
    by (auto split: option.splits)
  with b show "tally i (JObj d # qs) answers c = tally (i + 1) qs answers c"
    by simp
qed

theorem mcq_wrong_cardinality_witness:
  "map_of short_mcq_fields ''type'' = Some (JStr ''MCQ'')
   \<and> py_len (case map_of short_mcq_fields ''options'' of None \<Rightarrow> JArr [] | Some v \<Rightarrow> v) = Inr 3
   \<and> (3::nat) \<noteq> 4
   \<and> render_question pick_second ''auto'' 2 (JObj short_mcq_fields) [JStr ''B) 4'', JNull, JNull]
       = (None, [Heading 2 (JStr ''Easy''), Prompt (JStr ''1+1?''), Divider],
          [JStr ''B) 4'', JNull, JNull])
   \<and> fst (render_loop pick_second ''auto'' 1 [mcq_question, short_mcq_question, tf_question]
             [JNull, JNull, JNull]) = None
   \<and> (1::nat) < length [mcq_question, short_mcq_question, tf_question]
   \<and> [mcq_question, short_mcq_question, tf_question] ! 1 = JObj short_mcq_fields
   \<and> snd (snd (render_loop pick_second ''auto'' 1 [mcq_question, short_mcq_question, tf_question]
                  [JNull, JNull, JNull])) ! 1 = JNull
   \<and> [JStr ''B) 4'', JNull, JStr ''True''] ! (2 - 1) = JNull
   \<and> map_of short_mcq_fields ''answer'' \<noteq> Some JNull
   \<and> tally 2 [JObj short_mcq_fields, tf_question] [JStr ''B) 4'', JNull, JStr ''True''] 1 = Inr 2"
proof -
  have ty: "map_of short_mcq_fields ''type'' = Some (JStr ''MCQ'')"
    by (simp add: short_mcq_fields_def)
  have ln: "py_len (case map_of short_mcq_fields ''options'' of None \<Rightarrow> JArr [] | Some v \<Rightarrow> v) = Inr 3"
    by (simp add: short_mcq_fields_def)
  have an: "map_of short_mcq_fields ''answer'' \<noteq> Some JNull"
    by (simp add: short_mcq_fields_def)
  have q: "[mcq_question, short_mcq_question, tf_question] ! 1 = JObj short_mcq_fields"
    by (simp add: short_mcq_question_def)
  have hd: "(case map_of short_mcq_fields ''difficulty'' of None \<Rightarrow> JStr ''N/A'' | Some v \<Rightarrow> v) = JStr ''Easy''"
    "(case map_of short_mcq_fields ''question'' of None \<Rightarrow> JStr ''N/A'' | Some v \<Rightarrow> v) = JStr ''1+1?''"
    by (simp_all add: short_mcq_fields_def)
  have rest: "tally (2 + 1) [tf_question] [JStr ''B) 4'', JNull, JStr ''True''] 1 = Inr 2"
    by (simp add: tf_question_def tf_fields_def)
  have r: "render_question pick_second ''auto'' 2 (JObj short_mcq_fields) [JStr ''B) 4'', JNull, JNull]
       = (None, [Heading 2 (JStr ''Easy''), Prompt (JStr ''1+1?''), Divider],
          [JStr ''B) 4'', JNull, JNull])"
    using mcq_wrong_cardinality [where d = short_mcq_fields and n = 3 and pick = pick_second
      and key_prefix = "''auto''" and i = 2 and answers = "[JStr ''B) 4'', JNull, JNull]"] ty ln hd
    by simp
  have l: "snd (snd (render_loop pick_second ''auto'' 1 [mcq_question, short_mcq_question, tf_question]
                  [JNull, JNull, JNull])) ! 1 = JNull"
    using mcq_wrong_cardinality [where d = short_mcq_fields and n = 3 and pick = pick_second
      and key_prefix = "''auto''" and k = 1
      and questions = "[mcq_question, short_mcq_question, tf_question]"
      and ?answers0.0 = "[JNull, JNull, JNull]"] ty ln q sample_render
    by simp
  have t: "tally 2 [JObj short_mcq_fields, tf_question] [JStr ''B) 4'', JNull, JStr ''True''] 1 = Inr 2"
    using mcq_wrong_cardinality [where d = short_mcq_fields and n = 3 and i = 2
      and answers = "[JStr ''B) 4'', JNull, JStr ''True'']" and qs = "[tf_question]" and c = 1]
      ty ln an rest
    by simp
  have f: "fst (render_loop pick_second ''auto'' 1 [mcq_question, short_mcq_question, tf_question]
             [JNull, JNull, JNull]) = None"
    by (simp only: sample_render fst_conv)
  have m: "(3::nat) \<noteq> 4" "(1::nat) < length [mcq_question, short_mcq_question, tf_question]"
    "[JStr ''B) 4'', JNull, JStr ''True''] ! (2 - 1) = JNull"
    by simp_all
  show ?thesis
    by (intro conjI; fact)
qed

text \<open>
  C2 as stated fails for a question of type \<^verbatim>\<open>True/False\<close>: with three options, the
  question is still rendered with its radio widget, its stored answer becomes \<^verbatim>\<open>True\<close>,
  and the submission after that counts it as correct. The first run renders the fresh
  quiz, the second run is the one caused by the submit button.
\<close>

theorem true_false_cardinality_counterexample:
  "map_of tf_fields ''type'' = Some (JStr ''True/False'')
   \<and> map_of tf_fields ''options'' = Some (JArr [JStr ''True'', JStr ''False'', JStr ''Maybe''])
   \<and> display_interactive_quiz no_pick True ''10:15'' (JObj [(''questions'', JArr [tf_question])])
        ''auto'' ''Automata Theory'' ''Auto''
        (snd (snd (display_interactive_quiz no_pick False ''10:14''
           (JObj [(''questions'', JArr [tf_question])]) ''auto'' ''Automata Theory'' ''Auto''
           fresh_session)))
      = (None,
         [Heading 1 (JStr ''Easy''), Prompt (JStr ''A stack is LIFO.''),
          Radio ''auto_q1'' [JStr ''True'', JStr ''False''] 0, Divider,
          SubmitButton ''auto_submit'',
          Correct 1, Explanation (JStr ''Last in, first out.''), Divider,
          Score 1 1, Balloons],
         \<lparr>user_answers = Some [JStr ''True''], submitted = True,
          quiz_history = [\<lparr>att_type = ''Auto'', att_topic = ''Automata Theory'',
                           att_score = ''1/1'', att_time = ''10:15''\<rparr>]\<rparr>)"
  by code_simp

section \<open>Properties of the submission\<close>

lemma py_eq_string:
  "is_string a \<or> is_string b \<Longrightarrow> py_eq a b = string_equal a b"
  by (cases a; cases b) (auto simp: is_string_def string_equal_def)

lemma correct_count_strings:
  assumes "\<forall>(q, a)\<in>set (zip questions answers). is_string a \<or> is_string (answer_of q)"
  shows "correct_count questions answers = string_equal_count questions answers"
proof -
  have "filter (\<lambda>(q, a). py_eq a (answer_of q)) (zip questions answers)
          = filter (\<lambda>(q, a). string_equal a (answer_of q)) (zip questions answers)"
    using assms by (intro filter_cong refl) (auto simp: py_eq_string)
  then show ?thesis by (simp add: correct_count_def string_equal_count_def)
qed

lemma submit_answers_history:
  "prefix (quiz_history st) (quiz_history (snd (submit_answers now topic quiz_type questions answers st)))"
  by (simp add: submit_answers_def Let_def split: sum.splits)

lemma after_render_history:
  "prefix (quiz_history st)
     (quiz_history (snd (snd (after_render pressed now key_prefix topic quiz_type questions answers out st))))"
proof (cases pressed)
  case True
  obtain r st' where s: "submit_answers now topic quiz_type questions answers st = (r, st')"
    by (cases "submit_answers now topic quiz_type questions answers st") auto
  with submit_answers_history[of st now topic quiz_type questions answers]
  have "prefix (quiz_history st) (quiz_history st')" by simp
  with True s show ?thesis
    by (auto simp: after_render_def Let_def split: option.splits prod.splits)
next
  case False
  then show ?thesis
    by (auto simp: after_render_def Let_def split: option.splits prod.splits)
qed

lemma ensure_answers_history:
  "ensure_answers questions st = Inr (answers, st1) \<Longrightarrow> quiz_history st1 = quiz_history st"
  by (auto simp: ensure_answers_def split: option.splits sum.splits)

lemma display_history:
  "prefix (quiz_history st)
     (quiz_history (snd (snd (display_interactive_quiz pick pressed now quiz_data key_prefix
        topic quiz_type st))))"
proof (cases quiz_data)
  case (JObj d)
  define questions where "questions = (case map_of d ''questions'' of None \<Rightarrow> JArr [] | Some v \<Rightarrow> v)"
  show ?thesis
  proof (cases "py_truthy questions")
    case False
    with JObj show ?thesis
      by (simp add: display_interactive_quiz_def questions_def)
  next
    case True
    show ?thesis
    proof (cases "ensure_answers questions st")
      case (Inl e)
      with JObj True show ?thesis
        by (simp add: display_interactive_quiz_def questions_def)
    next
      case (Inr as)
      obtain answers st1 where as: "as = (answers, st1)" by (cases as) auto
      from ensure_answers_history Inr as have h: "quiz_history st1 = quiz_history st"
        by blast
      show ?thesis
      proof (cases "py_iter questions")
        case (Inl e)
        with JObj True Inr as h show ?thesis
          by (simp add: display_interactive_quiz_def questions_def)
      next
        case qs: (Inr qs)
        obtain r out answers' where rl: "render_loop pick key_prefix 1 qs answers = (r, out, answers')"
          by (cases "render_loop pick key_prefix 1 qs answers") auto
        show ?thesis
        proof (cases r)
          case (Some e)
          with JObj True Inr as h qs rl show ?thesis
            by (simp add: display_interactive_quiz_def questions_def)
        next
          case None
          have "prefix (quiz_history (st1\<lparr>user_answers := Some answers'\<rparr>))
             (quiz_history (snd (snd (after_render pressed now key_prefix topic quiz_type qs
                answers' out (st1\<lparr>user_answers := Some answers'\<rparr>)))))"
            by (rule after_render_history)
          with JObj True Inr as h qs rl None show ?thesis
            by (simp add: display_interactive_quiz_def questions_def)
        qed
      qed
    qed
  qed
qed (simp_all add: display_interactive_quiz_def)

text \<open>
  C5, as the code has it: a run of the page script that was caused by the submit button,
  for a quiz whose questions are rendered without an exception. The run sets the
  submitted flag and appends exactly one attempt to the history; its score is the number
  of questions whose stored answer, as the rendering loop has left it, is equal by
  Python's \<^verbatim>\<open>==\<close> to the answer field of the question, over the number of questions. Where
  the stored answer or the answer field of every question is a string, these are the
  questions whose two values are the same string. No run of the page script, whatever
  its arguments, changes an attempt that is in the history: the history before the run
  is a prefix of the history after it.
\<close>

theorem submit_transition:
  assumes "map_of d ''questions'' = Some (JArr questions)"
    and "questions \<noteq> []"
    and "answers = (case user_answers st of None \<Rightarrow> replicate (length questions) JNull | Some a \<Rightarrow> a)"
    and "length questions \<le> length answers"
    and "render_loop pick key_prefix 1 questions answers = (None, out, answers')"
  shows "(\<exists>out'. display_interactive_quiz pick True now (JObj d) key_prefix topic quiz_type st =
           (None, out',
            st\<lparr>user_answers := Some answers', submitted := True,
               quiz_history := quiz_history st @
                 [\<lparr>att_type = quiz_type, att_topic = topic,
                   att_score = show_nat (correct_count questions answers') @ ''/'' @
                                 show_nat (length questions),
                   att_time = now\<rparr>]\<rparr>))
       \<and> ((\<forall>(q, a)\<in>set (zip questions answers'). is_string a \<or> is_string (answer_of q)) \<longrightarrow>
            correct_count questions answers' = string_equal_count questions answers')
       \<and> prefix (quiz_history later)
            (quiz_history (snd (snd (display_interactive_quiz pick2 pressed2 now2 quiz_data2
               key_prefix2 topic2 quiz_type2 later))))"
proof -
  have len: "length answers' = length answers"
    using render_loop_frame[OF assms(5)] by simp
  have dicts: "\<forall>q\<in>set questions. \<exists>d. q = JObj d"
    using render_loop_ok_dicts[OF assms(5)] .
  have t: "tally 1 questions answers' 0 = Inr (correct_count questions answers')"
    using tally_correct_count[OF dicts, of 1 answers' 0] assms(4) len by simp
  from t obtain fout where f: "feedback 1 questions answers' 0 = (None, fout, correct_count questions answers')"
    by (rule tally_ok_feedback)
  have e: "ensure_answers (JArr questions) st =
             Inr (answers, (case user_answers st of None \<Rightarrow> st\<lparr>user_answers := Some answers\<rparr> | Some a \<Rightarrow> st))"
    using assms(3) by (simp add: ensure_answers_def split: option.splits)
  have u: "(case user_answers st of None \<Rightarrow> st\<lparr>user_answers := Some answers\<rparr> | Some a \<Rightarrow> st)
             \<lparr>user_answers := Some answers'\<rparr> = st\<lparr>user_answers := Some answers'\<rparr>"
    by (simp split: option.splits)
  have h: "quiz_history (case user_answers st of None \<Rightarrow> st\<lparr>user_answers := Some answers\<rparr> | Some a \<Rightarrow> st)
             = quiz_history st"
    by (simp split: option.splits)
  have "\<exists>out'. display_interactive_quiz pick True now (JObj d) key_prefix topic quiz_type st =
           (None, out',
            st\<lparr>user_answers := Some answers', submitted := True,
               quiz_history := quiz_history st @
                 [\<lparr>att_type = quiz_type, att_topic = topic,
                   att_score = show_nat (correct_count questions answers') @ ''/'' @
                                 show_nat (length questions),
                   att_time = now\<rparr>]\<rparr>)"
    using assms(1,2,5) e u h t f
    by (simp add: display_interactive_quiz_def after_render_def submit_answers_def
        show_results_def)
  moreover have "(\<forall>(q, a)\<in>set (zip questions answers'). is_string a \<or> is_string (answer_of q)) \<longrightarrow>
            correct_count questions answers' = string_equal_count questions answers'"
    using correct_count_strings by blast
  moreover have "prefix (quiz_history later)
            (quiz_history (snd (snd (display_interactive_quiz pick2 pressed2 now2 quiz_data2
               key_prefix2 topic2 quiz_type2 later))))"
    by (rule display_history)
  ultimately show ?thesis by blast
qed

theorem submit_transition_witness:
  "map_of [(''questions'', JArr [mcq_question, short_mcq_question, tf_question])] ''questions''
     = Some (JArr [mcq_question, short_mcq_question, tf_question])
   \<and> [mcq_question, short_mcq_question, tf_question] \<noteq> []
   \<and> [JNull, JNull, JNull] =
       (case user_answers fresh_session of
          None \<Rightarrow> replicate (length [mcq_question, short_mcq_question, tf_question]) JNull
        | Some a \<Rightarrow> a)
   \<and> length [mcq_question, short_mcq_question, tf_question] \<le> length [JNull, JNull, JNull]
   \<and> fst (render_loop pick_second ''auto'' 1 [mcq_question, short_mcq_question, tf_question]
             [JNull, JNull, JNull]) = None
   \<and> snd (snd (display_interactive_quiz pick_second True ''10:15''
        (JObj [(''questions'', JArr [mcq_question, short_mcq_question, tf_question])])
        ''auto'' ''Automata Theory'' ''Auto'' fresh_session))
      = \<lparr>user_answers = Some [JStr ''B) 4'', JNull, JStr ''True''], submitted = True,
         quiz_history = [\<lparr>att_type = ''Auto'', att_topic = ''Automata Theory'',
                          att_score = ''2/3'', att_time = ''10:15''\<rparr>]\<rparr>
   \<and> correct_count [mcq_question, short_mcq_question, tf_question]
         [JStr ''B) 4'', JNull, JStr ''True'']
       = string_equal_count [mcq_question, short_mcq_question, tf_question]
           [JStr ''B) 4'', JNull, JStr ''True'']
   \<and> string_equal_count [mcq_question, short_mcq_question, tf_question]
         [JStr ''B) 4'', JNull, JStr ''True''] = 2"
proof -
  have a: "[JNull, JNull, JNull] =
       (case user_answers fresh_session of
          None \<Rightarrow> replicate (length [mcq_question, short_mcq_question, tf_question]) JNull
        | Some a \<Rightarrow> a)"
    by (simp add: fresh_session_def)
  have n: "show_nat (correct_count [mcq_question, short_mcq_question, tf_question]
             [JStr ''B) 4'', JNull, JStr ''True'']) @ ''/'' @
           show_nat (length [mcq_question, short_mcq_question, tf_question]) = ''2/3''"
    by code_simp
  have s: "\<forall>(q, a)\<in>set (zip [mcq_question, short_mcq_question, tf_question]
                           [JStr ''B) 4'', JNull, JStr ''True'']).
          is_string a \<or> is_string (answer_of q)"
    by (simp add: is_string_def answer_of_def short_mcq_question_def short_mcq_fields_def)
  have c2: "string_equal_count [mcq_question, short_mcq_question, tf_question]
         [JStr ''B) 4'', JNull, JStr ''True''] = 2"
    by code_simp
  have m: "map_of [(''questions'', JArr [mcq_question, short_mcq_question, tf_question])] ''questions''
     = Some (JArr [mcq_question, short_mcq_question, tf_question])"
    "[mcq_question, short_mcq_question, tf_question] \<noteq> []"
    "length [mcq_question, short_mcq_question, tf_question] \<le> length [JNull, JNull, JNull]"
    by simp_all
  note w = submit_transition [where d = "[(''questions'', JArr [mcq_question, short_mcq_question, tf_question])]"
      and now = "''10:15''" and topic = "''Automata Theory''" and quiz_type = "''Auto''",
      OF m(1) m(2) a m(3) sample_render]
  note w1 = w [THEN conjunct1]
  note w2 = w [THEN conjunct2, THEN conjunct1]
  from w1 obtain out' where "display_interactive_quiz pick_second True ''10:15''
        (JObj [(''questions'', JArr [mcq_question, short_mcq_question, tf_question])])
        ''auto'' ''Automata Theory'' ''Auto'' fresh_session =
       (None, out',
        fresh_session\<lparr>user_answers := Some [JStr ''B) 4'', JNull, JStr ''True''], submitted := True,
           quiz_history := quiz_history fresh_session @
             [\<lparr>att_type = ''Auto'', att_topic = ''Automata Theory'',
               att_score = show_nat (correct_count [mcq_question, short_mcq_question, tf_question]
                   [JStr ''B) 4'', JNull, JStr ''True'']) @ ''/'' @
                 show_nat (length [mcq_question, short_mcq_question, tf_question]),
               att_time = ''10:15''\<rparr>]\<rparr>)"
    by auto
  then have r: "snd (snd (display_interactive_quiz pick_second True ''10:15''
        (JObj [(''questions'', JArr [mcq_question, short_mcq_question, tf_question])])
        ''auto'' ''Automata Theory'' ''Auto'' fresh_session))
      = \<lparr>user_answers = Some [JStr ''B) 4'', JNull, JStr ''True''], submitted = True,
         quiz_history = [\<lparr>att_type = ''Auto'', att_topic = ''Automata Theory'',
                          att_score = ''2/3'', att_time = ''10:15''\<rparr>]\<rparr>"
    by (simp only: n snd_conv) (simp add: fresh_session_def)
  from w2 [rule_format] s have e: "correct_count [mcq_question, short_mcq_question, tf_question]
         [JStr ''B) 4'', JNull, JStr ''True'']
       = string_equal_count [mcq_question, short_mcq_question, tf_question]
           [JStr ''B) 4'', JNull, JStr ''True'']"
    by blast
  have f: "fst (render_loop pick_second ''auto'' 1 [mcq_question, short_mcq_question, tf_question]
             [JNull, JNull, JNull]) = None"
    by (simp only: sample_render fst_conv)
  show ?thesis
    by (intro conjI; fact)
qed

text \<open>
  C5 as stated fails in two places. A question whose answer field is \<^verbatim>\<open>null\<close> and whose
  stored answer is unset is counted, although the two are not strings: the score is 1/1
  where the count by string equality is 0. And the displayed score is not frozen: after
  a submission with the score 1/1, a run in which the user has selected another option
  displays 0/1, while the attempt in the history keeps 1/1.
\<close>

theorem string_equality_counterexample:
  "string_equal_count [open_question] [JNull] = 0
   \<and> snd (snd (display_interactive_quiz no_pick True ''10:15''
        (JObj [(''questions'', JArr [open_question])]) ''auto'' ''Automata Theory'' ''Auto''
        (snd (snd (display_interactive_quiz no_pick False ''10:14''
           (JObj [(''questions'', JArr [open_question])]) ''auto'' ''Automata Theory'' ''Auto''
           fresh_session)))))
      = \<lparr>user_answers = Some [JNull], submitted = True,
         quiz_history = [\<lparr>att_type = ''Auto'', att_topic = ''Automata Theory'',
                          att_score = ''1/1'', att_time = ''10:15''\<rparr>]\<rparr>
   \<and> snd (snd (display_interactive_quiz pick_second True ''10:15''
        (JObj [(''questions'', JArr [mcq_question])]) ''auto'' ''Automata Theory'' ''Auto''
        fresh_session))
      = \<lparr>user_answers = Some [JStr ''B) 4''], submitted = True,
         quiz_history = [\<lparr>att_type = ''Auto'', att_topic = ''Automata Theory'',
                          att_score = ''1/1'', att_time = ''10:15''\<rparr>]\<rparr>
   \<and> display_interactive_quiz pick_first False ''10:16''
        (JObj [(''questions'', JArr [mcq_question])]) ''auto'' ''Automata Theory'' ''Auto''
        \<lparr>user_answers = Some [JStr ''B) 4''], submitted = True,
         quiz_history = [\<lparr>att_type = ''Auto'', att_topic = ''Automata Theory'',
                          att_score = ''1/1'', att_time = ''10:15''\<rparr>]\<rparr>
      = (None,
         [Heading 1 (JStr ''Easy''), Prompt (JStr ''2+2?''),
          Radio ''auto_q1'' [JStr ''A) 3'', JStr ''B) 4'', JStr ''C) 5'', JStr ''D) 6''] 1, Divider,
          SubmitButton ''auto_submit'',
          Incorrect 1 (JStr ''B) 4''), Explanation (JStr ''2+2=4''), Divider,
          Score 0 1],
         \<lparr>user_answers = Some [JStr ''A) 3''], submitted = True,
          quiz_history = [\<lparr>att_type = ''Auto'', att_topic = ''Automata Theory'',
                           att_score = ''1/1'', att_time = ''10:15''\<rparr>]\<rparr>)"
  by code_simp

section \<open>Properties of the response normalizer\<close>

lemma py_strip_pad:
  assumes "\<forall>c\<in>set a. py_isspace c" and "\<forall>c\<in>set b. py_isspace c"
  shows "py_strip (a @ s @ b) = py_strip s"
proof -
  have 1: "dropWhile py_isspace (a @ s @ b) = dropWhile py_isspace (s @ b)"
    by (rule dropWhile_append2) (use assms(1) in auto)
  show ?thesis
  proof (cases "\<forall>c\<in>set s. py_isspace c")
    case True
    then have e: "dropWhile py_isspace s = []"
      by simp
    have "\<forall>c\<in>set (a @ s @ b). py_isspace c"
      using True assms by auto
    then have z: "dropWhile py_isspace (a @ s @ b) = []"
      by (simp only: dropWhile_eq_Nil_conv)
    show ?thesis unfolding py_strip_def e z by simp
  next
    case False
    then have 2: "dropWhile py_isspace (s @ b) = dropWhile py_isspace s @ b"
      by (auto simp: dropWhile_append1)
    have "dropWhile py_isspace (rev b @ rev (dropWhile py_isspace s))
            = dropWhile py_isspace (rev (dropWhile py_isspace s))"
      by (rule dropWhile_append2) (use assms(2) in auto)
    with 1 2 show ?thesis by (simp add: py_strip_def)
  qed
qed

lemma newline_space: "\<forall>c\<in>set newline. py_isspace c"
  by (simp add: newline_def py_isspace_def)

lemma py_strip_newlines: "py_strip (newline @ p @ newline) = py_strip p"
  using py_strip_pad[OF newline_space newline_space] by simp

lemma prefix_fence_iff:
  "prefix fence s \<longleftrightarrow> (\<exists>r. s = CHR 0x60 # CHR 0x60 # CHR 0x60 # r)"
  by (auto simp: fence_def prefix_def)

lemma prefix_fence_json_fence: "prefix fence_json s \<Longrightarrow> prefix fence s"
  by (auto simp: fence_json_def fence_def prefix_def)

lemma no_fence_drop:
  assumes "\<not> py_in_str fence p"
  shows "\<not> prefix fence (drop k p)"
proof (cases "k \<le> length p")
  case True
  with assms show ?thesis by (simp add: py_in_str_def find_sub_None_iff)
next
  case False
  then show ?thesis by (simp add: fence_def)
qed

lemma no_fence_before_newline:
  assumes "\<not> py_in_str fence p"
  shows "\<not> prefix fence (drop k p @ newline @ r)"
proof
  assume a: "prefix fence (drop k p @ newline @ r)"
  define q where "q = drop k p"
  from a obtain t where t: "q @ newline @ r = CHR 0x60 # CHR 0x60 # CHR 0x60 # t"
    unfolding prefix_fence_iff q_def by blast
  have "prefix fence q"
  proof (cases q)
    case Nil
    with t show ?thesis by (simp add: newline_def)
  next
    case (Cons a1 q1)
    show ?thesis
    proof (cases q1)
      case Nil
      with Cons t show ?thesis by (simp add: newline_def)
    next
      case (Cons a2 q2)
      show ?thesis
      proof (cases q2)
        case Nil
        with Cons \<open>q = a1 # q1\<close> t show ?thesis by (simp add: newline_def)
      next
        case (Cons a3 q3)
        with \<open>q1 = a2 # q2\<close> \<open>q = a1 # q1\<close> t show ?thesis
          by (simp add: prefix_fence_iff)
      qed
    qed
  qed
  with no_fence_drop[OF assms, of k] show False by (simp add: q_def)
qed

lemma find_closing_fence:
  assumes "\<not> py_in_str fence p"
  shows "find_sub fence (newline @ p @ newline @ fence) = Some (length p + 2)"
proof -
  let ?s = "newline @ p @ newline @ fence"
  have len: "length p + 2 \<le> length ?s" by (simp add: newline_def)
  have at: "prefix fence (drop (length p + 2) ?s)"
    by (simp add: newline_def)
  have before: "\<not> prefix fence (drop j ?s)" if "j < length p + 2" for j
  proof (cases j)
    case 0
    then show ?thesis by (simp add: newline_def prefix_fence_iff)
  next
    case (Suc j')
    then have "drop j ?s = drop j' p @ newline @ fence"
      using that by (simp add: newline_def)
    with no_fence_before_newline[OF assms, of j' fence] show ?thesis by simp
  qed
  show ?thesis
    unfolding find_sub_Some_iff using len at before by blast
qed

lemma no_fence_json:
  assumes "\<not> py_in_str fence p"
  shows "\<not> py_in_str fence_json p"
proof -
  have "\<not> prefix fence_json (drop j p)" for j
    using no_fence_drop[OF assms, of j] prefix_fence_json_fence by blast
  then show ?thesis by (simp add: py_in_str_def find_sub_None_iff)
qed

lemma extract_unfenced:
  "\<not> py_in_str fence p \<Longrightarrow> extract_json_str p = py_strip p"
  by (simp add: extract_json_str_def no_fence_json)

lemma fenced_slice_closed:
  assumes "\<not> py_in_str fence p"
    and "drop start s = newline @ p @ newline @ fence"
    and "start \<le> length s"
  shows "fenced_slice s start = py_strip p"
proof -
  have f: "py_find s fence start = Some (start + (length p + 2))"
    using assms(2,3) find_closing_fence[OF assms(1)] by (simp add: py_find_def)
  have "py_slice s start (start + (length p + 2)) = newline @ p @ newline"
    using assms(2) by (simp add: py_slice_def newline_def)
  with f show ?thesis
    by (simp add: fenced_slice_def py_strip_newlines)
qed

lemma extract_json_fenced:
  assumes "\<not> py_in_str fence p"
  shows "extract_json_str (wrap_json_fence p) = py_strip p"
proof -
  let ?s = "wrap_json_fence p"
  have 0: "find_sub fence_json ?s = Some 0"
    by (simp add: find_sub_Some_iff wrap_json_fence_def)
  have d: "drop 7 ?s = newline @ p @ newline @ fence"
    by (simp add: wrap_json_fence_def fence_json_def)
  have l: "7 \<le> length ?s"
    by (simp add: wrap_json_fence_def fence_json_def)
  from 0 have "extract_json_str ?s = fenced_slice ?s 7"
    by (simp add: extract_json_str_def py_in_str_def py_find_0)
  with fenced_slice_closed[OF assms d l] show ?thesis by simp
qed

lemma find_fence_json_tail:
  assumes "\<not> py_in_str fence p"
  shows "find_sub fence_json (p @ newline @ fence) = None"
proof -
  have "\<not> prefix fence_json (drop j (p @ newline @ fence))" for j
  proof (cases "j \<le> length p")
    case True
    then have "drop j (p @ newline @ fence) = drop j p @ newline @ fence" by simp
    with no_fence_before_newline[OF assms, of j fence] prefix_fence_json_fence
    show ?thesis by metis
  next
    case False
    then have "length (drop j (p @ newline @ fence)) < length fence_json"
      by (simp add: newline_def fence_def fence_json_def)
    then show ?thesis using prefix_length_le by fastforce
  qed
  then show ?thesis by (simp add: find_sub_None_iff)
qed

lemma extract_generic_fenced:
  assumes "\<not> py_in_str fence p"
  shows "extract_json_str (wrap_fence p) = py_strip p"
proof -
  let ?s = "wrap_fence p"
  have n: "find_sub fence_json ?s = None"
    using find_fence_json_tail[OF assms]
    by (simp add: wrap_fence_def fence_def fence_json_def newline_def)
  have 0: "find_sub fence ?s = Some 0"
    by (simp add: find_sub_Some_iff wrap_fence_def)
  have d: "drop 3 ?s = newline @ p @ newline @ fence"
    by (simp add: wrap_fence_def fence_def)
  have l: "3 \<le> length ?s"
    by (simp add: wrap_fence_def fence_def)
  from n 0 have "extract_json_str ?s = fenced_slice ?s 3"
    by (simp add: extract_json_str_def py_in_str_def py_find_0)
  with fenced_slice_closed[OF assms d l] show ?thesis by simp
qed

lemma parse_ai_response_extract:
  "extract_json_str s = extract_json_str t \<Longrightarrow>
     parse_ai_response loads repair (Text s) = parse_ai_response loads repair (Text t)"
  by (simp add: parse_ai_response_def parse_body_def)

lemma parse_ai_response_array:
  "loads (extract_json_str s) = Inr (JArr xs) \<Longrightarrow>
     parse_ai_response loads repair (Text s) = JObj [(''questions'', JArr xs)]"
  by (simp add: parse_ai_response_def parse_body_def parse_or_repair_def)

text \<open>
  C4, as the code has it: for a payload in which the marker \<^verbatim>\<open>```\<close> does not occur, the
  result for the payload inside a tagged fence, the result for the payload inside a plain
  fence and the result for the payload alone are the same, whatever the two parsers do.
\<close>

theorem fence_equivalence:
  assumes "\<not> py_in_str fence p"
  shows "parse_ai_response loads repair (Text (wrap_json_fence p))
           = parse_ai_response loads repair (Text p)
       \<and> parse_ai_response loads repair (Text (wrap_fence p))
           = parse_ai_response loads repair (Text p)"
  using extract_json_fenced[OF assms] extract_generic_fenced[OF assms] extract_unfenced[OF assms]
  by (simp add: parse_ai_response_extract)

theorem fence_equivalence_witness:
  "\<not> py_in_str fence ''[1, 2]''
   \<and> parse_ai_response json_loads repair_unused (Text ''[1, 2]'')
       = JObj [(''questions'', JArr [JInt 1, JInt 2])]
   \<and> parse_ai_response json_loads repair_unused (Text (wrap_json_fence ''[1, 2]''))
       = JObj [(''questions'', JArr [JInt 1, JInt 2])]
   \<and> parse_ai_response json_loads repair_unused (Text (wrap_fence ''[1, 2]''))
       = JObj [(''questions'', JArr [JInt 1, JInt 2])]"
proof -
  have n: "\<not> py_in_str fence ''[1, 2]''"
    by code_simp
  have u: "parse_ai_response json_loads repair_unused (Text ''[1, 2]'')
       = JObj [(''questions'', JArr [JInt 1, JInt 2])]"
    by code_simp
  from fence_equivalence [OF n, of json_loads repair_unused] u
  have j: "parse_ai_response json_loads repair_unused (Text (wrap_json_fence ''[1, 2]''))
       = JObj [(''questions'', JArr [JInt 1, JInt 2])]"
    and g: "parse_ai_response json_loads repair_unused (Text (wrap_fence ''[1, 2]''))
       = JObj [(''questions'', JArr [JInt 1, JInt 2])]"
    by simp_all
  show ?thesis
    by (intro conjI; fact)
qed

text \<open>
  C4 as stated fails for a payload that contains the marker: the payload alone is cut at
  its own markers, the fenced payload is cut at the first marker inside the payload.
\<close>

theorem fence_equivalence_counterexample:
  "parse_ai_response json_loads repair_unused (Text ''[1]```[2]```'')
     = JObj [(''questions'', JArr [JInt 2])]
   \<and> parse_ai_response json_loads repair_unused (Text (wrap_json_fence ''[1]```[2]```''))
       = JObj [(''questions'', JArr [JInt 1])]
   \<and> parse_ai_response json_loads repair_unused (Text (wrap_fence ''[1]```[2]```''))
       = JObj [(''questions'', JArr [JInt 1])]"
  by code_simp

text \<open>
  C3, as the code has it: for a text in which the marker \<^verbatim>\<open>```\<close> does not occur and
  which, trimmed, is valid JSON with an array at the top, the result is the dict with the
  single key \<^verbatim>\<open>questions\<close> whose value is that array, entry by entry, be the text alone,
  inside a tagged fence or inside a plain fence, and whatever the lenient parser does.
\<close>

theorem top_level_array:
  assumes "\<not> py_in_str fence p" and "loads (py_strip p) = Inr (JArr xs)"
  shows "parse_ai_response loads repair (Text p) = JObj [(''questions'', JArr xs)]
       \<and> parse_ai_response loads repair (Text (wrap_json_fence p)) = JObj [(''questions'', JArr xs)]
       \<and> parse_ai_response loads repair (Text (wrap_fence p)) = JObj [(''questions'', JArr xs)]"
  using assms
  by (simp add: parse_ai_response_array extract_json_fenced extract_generic_fenced
      extract_unfenced)

theorem top_level_array_witness:
  "\<not> py_in_str fence '' [true, null] ''
   \<and> json_loads (py_strip '' [true, null] '') = Inr (JArr [JBool True, JNull])
   \<and> parse_ai_response json_loads repair_unused (Text '' [true, null] '')
       = JObj [(''questions'', JArr [JBool True, JNull])]
   \<and> parse_ai_response json_loads repair_unused (Text (wrap_json_fence '' [true, null] ''))
       = JObj [(''questions'', JArr [JBool True, JNull])]
   \<and> parse_ai_response json_loads repair_unused (Text (wrap_fence '' [true, null] ''))
       = JObj [(''questions'', JArr [JBool True, JNull])]"
proof -
  have n: "\<not> py_in_str fence '' [true, null] ''"
    by code_simp
  have l: "json_loads (py_strip '' [true, null] '') = Inr (JArr [JBool True, JNull])"
    by code_simp
  from top_level_array [where loads = json_loads and repair = repair_unused
      and p = "'' [true, null] ''" and xs = "[JBool True, JNull]", OF n l]
  have c: "parse_ai_response json_loads repair_unused (Text '' [true, null] '')
       = JObj [(''questions'', JArr [JBool True, JNull])]"
    and d: "parse_ai_response json_loads repair_unused (Text (wrap_json_fence '' [true, null] ''))
       = JObj [(''questions'', JArr [JBool True, JNull])]"
    and e: "parse_ai_response json_loads repair_unused (Text (wrap_fence '' [true, null] ''))
       = JObj [(''questions'', JArr [JBool True, JNull])]"
    by blast+
  show ?thesis
    by (intro conjI; fact)
qed

text \<open>
  C3 as stated fails for an array that holds the marker inside a string: the response is
  valid JSON with an array of one string at the top, but the fence detection cuts the
  text between the two markers out of it, and the result holds the number 7.
\<close>

theorem top_level_array_counterexample:
  \<open>json_loads ''["```[7]```"]'' = Inr (JArr [JStr ''```[7]```''])
   \<and> json_loads (py_strip ''["```[7]```"]'') = Inr (JArr [JStr ''```[7]```''])
   \<and> extract_json_str ''["```[7]```"]'' = ''[7]''
   \<and> parse_ai_response json_loads repair_unused (Text ''["```[7]```"]'')
       = JObj [(''questions'', JArr [JInt 7])]\<close>
  by code_simp

text \<open>
  C1, as the code has it: for every argument and whatever the two parsers do, the result
  is a dict with the key \<^verbatim>\<open>questions\<close>, and an exception in the body gives the dict with no
  questions. The value under the key is a list, unless the parsed value was itself a
  dict with the key \<^verbatim>\<open>questions\<close>, which is returned as it is.
\<close>

theorem parse_ai_response_total:
  "(\<exists>d v. parse_ai_response loads repair r = JObj d \<and> map_of d ''questions'' = Some v
      \<and> (is_sequence v
          \<or> (\<exists>s. r = Text s \<and> parse_or_repair loads repair (extract_json_str s) = Inr (JObj d))))
   \<and> (parse_body loads repair r = Inl e \<longrightarrow> parse_ai_response loads repair r = empty_quiz)"
proof (intro conjI impI)
  show "parse_body loads repair r = Inl e \<Longrightarrow> parse_ai_response loads repair r = empty_quiz"
    by (simp add: parse_ai_response_def)
  show "\<exists>d v. parse_ai_response loads repair r = JObj d \<and> map_of d ''questions'' = Some v
      \<and> (is_sequence v
          \<or> (\<exists>s. r = Text s \<and> parse_or_repair loads repair (extract_json_str s) = Inr (JObj d)))"
  proof (cases r)
    case NonText
    then show ?thesis
      by (simp add: parse_ai_response_def parse_body_def empty_quiz_def is_sequence_def)
  next
    case (Text s)
    show ?thesis
    proof (cases "parse_or_repair loads repair (extract_json_str s)")
      case (Inl e')
      with Text show ?thesis
        by (simp add: parse_ai_response_def parse_body_def empty_quiz_def is_sequence_def)
    next
      case (Inr parsed)
      with Text show ?thesis
        by (cases parsed)
          (auto simp: parse_ai_response_def parse_body_def empty_quiz_def is_sequence_def)
    qed
  qed
qed

theorem parse_ai_response_total_witness:
  "parse_body json_loads repair_unused NonText = Inl AttributeError
   \<and> parse_ai_response json_loads repair_unused NonText = JObj [(''questions'', JArr [])]"
proof -
  have a: "parse_body json_loads repair_unused NonText = Inl AttributeError"
    by (simp add: parse_body_def)
  have c: "parse_ai_response json_loads repair_unused NonText = JObj [(''questions'', JArr [])]"
    using parse_ai_response_total [of json_loads repair_unused NonText AttributeError] a
    by (simp add: empty_quiz_def)
  show ?thesis
    by (intro conjI; fact)
qed

text \<open>
  C1 as stated fails for a response that is a dict whose \<^verbatim>\<open>questions\<close> value is a number:
  the dict is returned as it is.
\<close>

theorem questions_value_counterexample:
  \<open>json_loads ''{"questions": 5}'' = Inr (JObj [(''questions'', JInt 5)])
   \<and> parse_ai_response json_loads repair_unused (Text ''{"questions": 5}'')
       = JObj [(''questions'', JInt 5)]
   \<and> \<not> is_sequence (JInt 5)\<close>
  by code_simp

end
